theory Spec2Isabelle
  imports Complex_Main
begin

section \<open>Values carried by the data frames\<close>

text \<open>
  The notebook \<^verbatim>\<open>etl.ipynb\<close> reads newline-delimited JSON into pandas data frames and
  projects, filters and iterates them.  A 64-bit float cell is never computed on: it is
  read, carried into a tuple and compared for equality by the store.  It is modelled by
  the number it denotes, with \<open>NaN\<close> for the missing value pandas puts in a float column
  where the JSON document has \<^verbatim>\<open>null\<close>.  A nullable text cell is a \<open>string option\<close>.
\<close>

datatype float64 = F64 rat | NaN

datatype error = OutOfBoundsDatetime | StorageError

section \<open>The pandas timestamp\<close>

text \<open>
  \<^verbatim>\<open>pd.to_datetime(ts, unit='ms')\<close> yields a \<^verbatim>\<open>Timestamp\<close>: a signed 64-bit count of
  nanoseconds since 1970-01-01T00:00:00 (the notebook prints \<^verbatim>\<open>dtype: datetime64[ns]\<close>),
  naive, that is with no time zone applied.  A count outside the 64-bit range raises
  \<^verbatim>\<open>OutOfBoundsDatetime\<close>.  The calendar fields are those of the proleptic Gregorian
  calendar; the arithmetic below is the one of Python's \<^verbatim>\<open>datetime\<close>, of which
  \<^verbatim>\<open>Timestamp\<close> is a subclass, on day ordinals (day 1 is 0001-01-01).
\<close>

datatype timestamp = Timestamp (ts_value: int)

definition to_datetime :: "int \<Rightarrow> error + timestamp" where
  \<comment> \<open>\<^verbatim>\<open>pd.to_datetime(ms, unit='ms')\<close>\<close>
  "to_datetime ms =
     (let v = ms * 1000000
      in if v < - 9223372036854775807 \<or> 9223372036854775807 < v
         then Inl OutOfBoundsDatetime
         else Inr (Timestamp v))"

definition is_leapyear :: "int \<Rightarrow> bool" where
  "is_leapyear y = (if y mod 100 = 0 then y mod 400 = 0 else y mod 4 = 0)"

definition month_lengths :: "bool \<Rightarrow> int list" where
  "month_lengths leap = [31, if leap then 29 else 28, 31, 30, 31, 30, 31, 31, 30, 31, 30, 31]"

definition days_before_year :: "int \<Rightarrow> int" where
  "days_before_year y = (let p = y - 1 in p * 365 + p div 4 - p div 100 + p div 400)"

definition days_before_month :: "int \<Rightarrow> int \<Rightarrow> int" where
  "days_before_month y m = sum_list (take (nat (m - 1)) (month_lengths (is_leapyear y)))"

definition ymd2ord :: "int \<Rightarrow> int \<Rightarrow> int \<Rightarrow> int" where
  "ymd2ord y m d = days_before_year y + days_before_month y m + d"

fun month_of_yday :: "int list \<Rightarrow> int \<Rightarrow> int \<Rightarrow> int \<times> int" where
  "month_of_yday [] m n = (m, n + 1)"
| "month_of_yday (l # ls) m n =
     (if n < l then (m, n + 1) else month_of_yday ls (m + 1) (n - l))"

definition ord2ymd :: "int \<Rightarrow> int \<times> int \<times> int" where
  "ord2ymd ordinal =
     (let n = ordinal - 1;
          n400 = n div 146097; r400 = n mod 146097;
          n100 = r400 div 36524; r100 = r400 mod 36524;
          n4 = r100 div 1461; r4 = r100 mod 1461;
          n1 = r4 div 365; r1 = r4 mod 365;
          y = n400 * 400 + 1 + n100 * 100 + n4 * 4 + n1
      in if n1 = 4 \<or> n100 = 4 then (y - 1, 12, 31)
         else (let (m, d) = month_of_yday (month_lengths (is_leapyear y)) 1 r1
               in (y, m, d)))"

definition dt_ordinal :: "timestamp \<Rightarrow> int" where
  \<comment> \<open>the day ordinal; 1970-01-01 is day 719163\<close>
  "dt_ordinal x = ts_value x div 86400000000000 + 719163"

definition dt_year :: "timestamp \<Rightarrow> int" where
  "dt_year x = fst (ord2ymd (dt_ordinal x))"

definition dt_month :: "timestamp \<Rightarrow> int" where
  "dt_month x = fst (snd (ord2ymd (dt_ordinal x)))"

definition dt_day :: "timestamp \<Rightarrow> int" where
  "dt_day x = snd (snd (ord2ymd (dt_ordinal x)))"

definition dt_hour :: "timestamp \<Rightarrow> int" where
  "dt_hour x = ts_value x mod 86400000000000 div 3600000000000"

definition dt_minute :: "timestamp \<Rightarrow> int" where
  "dt_minute x = ts_value x mod 3600000000000 div 60000000000"

definition dt_second :: "timestamp \<Rightarrow> int" where
  "dt_second x = ts_value x mod 60000000000 div 1000000000"

definition dt_microsecond :: "timestamp \<Rightarrow> int" where
  "dt_microsecond x = ts_value x mod 1000000000 div 1000"

definition dt_nanosecond :: "timestamp \<Rightarrow> int" where
  "dt_nanosecond x = ts_value x mod 1000"

definition weekday :: "int \<Rightarrow> int \<Rightarrow> int \<Rightarrow> int" where
  \<comment> \<open>\<^verbatim>\<open>date.weekday()\<close>: Monday is 0, Sunday is 6\<close>
  "weekday y m d = (ymd2ord y m d + 6) mod 7"

definition dt_dayofweek :: "timestamp \<Rightarrow> int" where
  "dt_dayofweek x = weekday (dt_year x) (dt_month x) (dt_day x)"

definition get_week_of_year :: "int \<Rightarrow> int \<Rightarrow> int \<Rightarrow> int" where
  \<comment> \<open>the week number pandas computes from the year, month and day\<close>
  "get_week_of_year y m d =
     (let doy = days_before_month y m + d;
          dow = weekday y m d;
          woy = (doy - 1) - dow + 3
      in if 0 \<le> woy
         then (let w = woy div 7 + 1
               in if w = 53 \<and> 31 - d + dow < 3 then 1 else w)
         else if - 2 < woy \<or> (woy = - 2 \<and> is_leapyear (y - 1)) then 53 else 52)"

definition dt_week :: "timestamp \<Rightarrow> int" where
  "dt_week x = get_week_of_year (dt_year x) (dt_month x) (dt_day x)"

subsection \<open>The week of ISO 8601\<close>

text \<open>
  The standard's own wording, as a second definition to compare \<open>get_week_of_year\<close> with:
  weeks run from Monday to Sunday, a week belongs to the calendar year that holds its
  Thursday, and the weeks of a year are numbered from 1.  So the number of the week of
  day \<open>n\<close> is one more than the number of whole weeks between the first of January of the
  year of that Thursday and the Thursday.  Day 1 is a Monday.
\<close>

definition iso_week_number :: "int \<Rightarrow> int" where
  "iso_week_number n =
     (let thursday = n - (n + 6) mod 7 + 3;
          y = fst (ord2ymd thursday)
      in (thursday - ymd2ord y 1 1) div 7 + 1)"

definition year_length :: "int \<Rightarrow> int" where
  "year_length y = (if is_leapyear y then 366 else 365)"

subsection \<open>The instant of a calendar date and time\<close>

text \<open>
  The spec types \<^verbatim>\<open>start_time\<close> as a timestamp.  A timestamp written as a date and a time
  of day with milliseconds denotes this count of milliseconds since 1970-01-01T00:00:00.
\<close>

definition epoch_ms :: "int \<Rightarrow> int \<Rightarrow> int \<Rightarrow> int \<Rightarrow> int \<Rightarrow> int \<Rightarrow> int \<Rightarrow> int" where
  "epoch_ms y m d h mi s ms =
     (ymd2ord y m d - ymd2ord 1970 1 1) * 86400000 + h * 3600000 + mi * 60000 + s * 1000 + ms"

subsection \<open>Printing a timestamp\<close>

fun digits :: "nat \<Rightarrow> string" where
  "digits n = (if n < 10 then [''0123456789'' ! n]
               else digits (n div 10) @ [''0123456789'' ! (n mod 10)])"

declare digits.simps [simp del]

definition zfill :: "nat \<Rightarrow> int \<Rightarrow> string" where
  \<comment> \<open>\<^verbatim>\<open>'%0wd' % n\<close> for a number that is not negative\<close>
  "zfill w n = (let s = digits (nat n) in replicate (w - length s) (CHR ''0'') @ s)"

definition isoformat :: "timestamp \<Rightarrow> string" where
  \<comment> \<open>\<^verbatim>\<open>str(x)\<close>, that is \<^verbatim>\<open>x.isoformat(sep=' ')\<close>: the fraction is printed only when it is
      not zero, with six digits, then three more when there are nanoseconds\<close>
  "isoformat x =
     zfill 4 (dt_year x) @ ''-'' @ zfill 2 (dt_month x) @ ''-'' @ zfill 2 (dt_day x) @ '' '' @
     zfill 2 (dt_hour x) @ '':'' @ zfill 2 (dt_minute x) @ '':'' @ zfill 2 (dt_second x) @
     (if dt_nanosecond x = 0
      then (if dt_microsecond x = 0 then [] else ''.'' @ zfill 6 (dt_microsecond x))
      else (if dt_microsecond x = 0 then ''.'' @ zfill 9 (dt_nanosecond x)
            else ''.'' @ zfill 6 (dt_microsecond x) @ zfill 3 (dt_nanosecond x)))"

section \<open>The data frames\<close>

text \<open>
  A row of the song data frame (\<^verbatim>\<open>pd.read_json(filepath, lines=True)\<close> on a file of
  \<^verbatim>\<open>data/song_data\<close>), with the columns the notebook prints.
\<close>

record song_rec =
  num_songs :: int
  artist_id :: string
  artist_latitude :: float64
  artist_longitude :: float64
  artist_location :: string
  artist_name :: string
  song_id :: string
  title :: string
  duration :: float64
  year :: int

text \<open>
  A row of the log data frame.  The columns \<^verbatim>\<open>length\<close> and \<^verbatim>\<open>method\<close> are named \<open>length_s\<close> and
  \<open>http_method\<close> here.
  Events of a logged-out visitor carry no artist, song, name, location or user agent,
  and an empty or missing \<^verbatim>\<open>userId\<close>.
\<close>

record log_rec =
  artist :: "string option"
  auth :: string
  firstName :: "string option"
  gender :: "string option"
  itemInSession :: int
  lastName :: "string option"
  length_s :: float64
  level :: string
  location :: "string option"
  http_method :: string
  page :: string
  registration :: float64
  sessionId :: int
  song :: "string option"
  status :: int
  ts :: int
  userAgent :: "string option"
  userId :: "string option"

type_synonym song_row = "string \<times> string \<times> string \<times> int \<times> float64"
type_synonym artist_row = "string \<times> string \<times> string \<times> float64 \<times> float64"
type_synonym time_row = "string \<times> int \<times> int \<times> int \<times> int \<times> int \<times> int"
type_synonym user_row =
  "string option \<times> string option \<times> string option \<times> string option \<times> string"
type_synonym songplay_row =
  "string \<times> string option \<times> string \<times> string option \<times> string option \<times> int \<times>
   string option \<times> string option"
type_synonym query = "string option \<times> string option \<times> float64"

section \<open>Song data: the songs and artists tables\<close>

definition song_tuples :: "song_rec list \<Rightarrow> song_row list" where
  \<comment> \<open>\<^verbatim>\<open>song_df = df[['song_id', 'title', 'artist_id', 'year', 'duration']]\<close>, then
      \<^verbatim>\<open>list(tuple(x) for x in song_df.to_numpy())\<close>\<close>
  "song_tuples df = map (\<lambda>x. (song_id x, title x, artist_id x, year x, duration x)) df"

definition artist_tuples :: "song_rec list \<Rightarrow> artist_row list" where
  \<comment> \<open>\<^verbatim>\<open>artist_df = df[['artist_id', 'artist_name', 'artist_location', 'artist_latitude',
      'artist_longitude']]\<close>, then \<^verbatim>\<open>list(tuple(x) for x in artist_df.to_numpy())\<close>\<close>
  "artist_tuples df =
     map (\<lambda>x. (artist_id x, artist_name x, artist_location x, artist_latitude x,
               artist_longitude x)) df"

section \<open>Log data: the time, users and songplays tables\<close>

definition df_NextSong :: "log_rec list \<Rightarrow> log_rec list" where
  \<comment> \<open>\<^verbatim>\<open>df = df[df.page == 'NextSong']\<close>\<close>
  "df_NextSong df = filter (\<lambda>row. page row = ''NextSong'') df"

fun to_datetime_series :: "int list \<Rightarrow> error + timestamp list" where
  \<comment> \<open>\<^verbatim>\<open>t = pd.to_datetime(df['ts'], unit='ms')\<close>: one value out of bounds fails the call\<close>
  "to_datetime_series [] = Inr []"
| "to_datetime_series (ms # rest) =
     (case to_datetime ms of
        Inl e \<Rightarrow> Inl e
      | Inr x \<Rightarrow> (case to_datetime_series rest of Inl e \<Rightarrow> Inl e | Inr xs \<Rightarrow> Inr (x # xs)))"

definition time_tuple :: "timestamp \<Rightarrow> time_row" where
  \<comment> \<open>\<^verbatim>\<open>(str(x), x.hour, x.day, x.week, x.month, x.year, x.dayofweek)\<close>\<close>
  "time_tuple x =
     (isoformat x, dt_hour x, dt_day x, dt_week x, dt_month x, dt_year x, dt_dayofweek x)"

definition time_data :: "timestamp list \<Rightarrow> time_row list" where
  \<comment> \<open>the comprehension over \<^verbatim>\<open>t.to_list()\<close>; \<^verbatim>\<open>time_df\<close> and \<^verbatim>\<open>time_tuples\<close> hold the same
      rows\<close>
  "time_data t = map time_tuple t"

definition user_tuples :: "log_rec list \<Rightarrow> user_row list" where
  \<comment> \<open>\<^verbatim>\<open>user_df = df[['userId', 'firstName', 'lastName', 'gender', 'level']].copy()\<close>, then
      \<^verbatim>\<open>[tuple(x) for x in user_df.to_numpy()]\<close>\<close>
  "user_tuples df =
     map (\<lambda>row. (userId row, firstName row, lastName row, gender row, level row)) df"

definition song_select_args :: "log_rec \<Rightarrow> query" where
  \<comment> \<open>\<^verbatim>\<open>(row.song, row.artist, float(row.length))\<close>\<close>
  "song_select_args row = (song row, artist row, length_s row)"

definition songplay_data :: "(string \<times> string) option \<Rightarrow> log_rec \<Rightarrow> error + songplay_row" where
  \<comment> \<open>\<^verbatim>\<open>song_id, artist_id = results if results else (None, None)\<close>, then the tuple
      \<^verbatim>\<open>songplay_data\<close>, whose first component may raise\<close>
  "songplay_data results row =
     (let (song_id, artist_id) =
            (case results of Some (s, a) \<Rightarrow> (Some s, Some a) | None \<Rightarrow> (None, None))
      in case to_datetime (ts row) of
           Inl e \<Rightarrow> Inl e
         | Inr x \<Rightarrow>
             Inr (isoformat x, userId row, level row, song_id, artist_id, sessionId row,
                  location row, userAgent row))"

section \<open>The store\<close>

text \<open>
  The notebook talks to PostgreSQL through one psycopg2 connection \<^verbatim>\<open>conn\<close> and its cursor
  \<^verbatim>\<open>cur\<close>.  The connection is modelled by the tables as the last \<^verbatim>\<open>conn.commit()\<close> left
  them (\<open>durable\<close>), the tables as the open transaction sees them (\<open>session\<close>), the list
  of \<^verbatim>\<open>song_select\<close> statements executed so far, and the number of write statements and
  commits sent so far (\<open>clock\<close>).  Whether the store accepts a write or a commit is not
  decided by the notebook: it is a parameter \<open>fails\<close>, asked at the clock of the statement.
\<close>

record store =
  time_tbl :: "time_row list"
  users_tbl :: "user_row list"
  songplays_tbl :: "songplay_row list"

record conn =
  durable :: store
  session :: store
  executed :: "query list"
  clock :: nat

text \<open>
  The four statements the notebook sends are imported from \<^verbatim>\<open>sql_queries.py\<close>, which is not
  among the sources; the loop and the cells take them as they are given by the spec
  (section 6, collaborator interfaces).
\<close>

text \<open>
  Modelled from the spec: \<^verbatim>\<open>time_table_insert\<close> of \<^verbatim>\<open>sql_queries.py\<close> is missing; the spec says
  the time table uses insert-or-ignore-on-conflict by its primary key \<^verbatim>\<open>start_time\<close>.
\<close>

fun insert_or_ignore :: "time_row list \<Rightarrow> time_row \<Rightarrow> time_row list" where
  "insert_or_ignore tbl r = (if fst r \<in> set (map fst tbl) then tbl else tbl @ [r])"

definition time_table_insert :: "store \<Rightarrow> time_row list \<Rightarrow> store" where
  "time_table_insert st rows = st\<lparr>time_tbl := foldl insert_or_ignore (time_tbl st) rows\<rparr>"

text \<open>
  Modelled from the spec: \<^verbatim>\<open>user_table_insert\<close> of \<^verbatim>\<open>sql_queries.py\<close> is missing; the spec says
  the users table uses insert-or-update-level-on-conflict by \<^verbatim>\<open>user_id\<close>, the last write
  winning.
\<close>

fun upsert_level :: "user_row list \<Rightarrow> user_row \<Rightarrow> user_row list" where
  "upsert_level [] r = [r]"
| "upsert_level ((uid, fname, lname, g, lvl) # tbl) (uid', fname', lname', g', lvl') =
     (if uid = uid' then (uid, fname, lname, g, lvl') # tbl
      else (uid, fname, lname, g, lvl) # upsert_level tbl (uid', fname', lname', g', lvl'))"

definition user_table_insert :: "store \<Rightarrow> user_row list \<Rightarrow> store" where
  "user_table_insert st rows = st\<lparr>users_tbl := foldl upsert_level (users_tbl st) rows\<rparr>"

text \<open>
  Modelled from the spec: \<^verbatim>\<open>songplay_table_insert\<close> of \<^verbatim>\<open>sql_queries.py\<close> is missing; the spec
  says the songplays table uses plain insert.
\<close>

definition songplay_table_insert :: "store \<Rightarrow> songplay_row list \<Rightarrow> store" where
  "songplay_table_insert st rows = st\<lparr>songplays_tbl := songplays_tbl st @ rows\<rparr>"

text \<open>
  Modelled from the spec: \<^verbatim>\<open>song_select\<close> of \<^verbatim>\<open>sql_queries.py\<close> is missing; the spec says it
  is a point query on the persisted song and artist rows, by exact match on title and
  artist name and exact match on duration, with no tolerance, and that it yields the song
  id and the artist id or nothing.  A missing title or name matches no row.  It is the
  first matching pair of the songs table joined with the artists table on the artist id.
\<close>

definition song_select :: "song_row list \<Rightarrow> artist_row list \<Rightarrow> query \<Rightarrow> (string \<times> string) option" where
  "song_select songs artists q =
     (case q of (t, n, d) \<Rightarrow>
        (case filter (\<lambda>((sid, stitle, said, syear, sdur), (aid, aname, aloc, alat, alon)).
                  said = aid \<and> Some stitle = t \<and> Some aname = n \<and> sdur = d)
                (List.product songs artists) of
           [] \<Rightarrow> None
         | ((sid, stitle, said, syear, sdur), a) # rest \<Rightarrow> Some (sid, said)))"

text \<open>
  \<^verbatim>\<open>execute_values(cur, statement, argslist)\<close> sends nothing when the list is empty.
  Otherwise the store accepts the rows into the open transaction or raises, and the
  exception leaves the notebook's cell.  (A long list is sent in pages of 100 rows; all
  pages belong to the same open transaction, so the call counts as one write.)
  \<^verbatim>\<open>conn.commit()\<close> makes the open transaction durable, or raises.  The lookup is a
  query: \<open>sel\<close> is the answer of the store to \<^verbatim>\<open>song_select\<close>, taken as given.
\<close>

definition execute_values ::
    "(nat \<Rightarrow> bool) \<Rightarrow> (store \<Rightarrow> 'r list \<Rightarrow> store) \<Rightarrow> conn \<Rightarrow> 'r list \<Rightarrow> error option \<times> conn" where
  "execute_values fails statement c argslist =
     (if argslist = [] then (None, c)
      else if fails (clock c) then (Some StorageError, c\<lparr>clock := Suc (clock c)\<rparr>)
      else (None, c\<lparr>session := statement (session c) argslist, clock := Suc (clock c)\<rparr>))"

definition commit :: "(nat \<Rightarrow> bool) \<Rightarrow> conn \<Rightarrow> error option \<times> conn" where
  "commit fails c =
     (if fails (clock c) then (Some StorageError, c\<lparr>clock := Suc (clock c)\<rparr>)
      else (None, c\<lparr>durable := session c, clock := Suc (clock c)\<rparr>))"

definition execute_fetchone :: "(query \<Rightarrow> 'a option) \<Rightarrow> conn \<Rightarrow> query \<Rightarrow> 'a option \<times> conn" where
  \<comment> \<open>\<^verbatim>\<open>cur.execute(song_select, args)\<close> then \<^verbatim>\<open>cur.fetchone()\<close>; \<open>sel\<close> is the answer of the
      store\<close>
  "execute_fetchone sel c args = (sel args, c\<lparr>executed := executed c @ [args]\<rparr>)"

subsection \<open>The songplays loop\<close>

definition songplay_step ::
    "(query \<Rightarrow> (string \<times> string) option) \<Rightarrow> (nat \<Rightarrow> bool) \<Rightarrow> conn \<Rightarrow> log_rec \<Rightarrow> error option \<times> conn" where
  \<comment> \<open>the body of \<^verbatim>\<open>for _, row in df.iterrows()\<close>\<close>
  "songplay_step sel fails c row =
     (case execute_fetchone sel c (song_select_args row) of
        (results, c1) \<Rightarrow>
          (case songplay_data results row of
             Inl e \<Rightarrow> (Some e, c1)
           | Inr d \<Rightarrow>
               (case execute_values fails songplay_table_insert c1 [d] of
                  (Some e, c2) \<Rightarrow> (Some e, c2)
                | (None, c2) \<Rightarrow> commit fails c2)))"

fun songplay_loop ::
    "(query \<Rightarrow> (string \<times> string) option) \<Rightarrow> (nat \<Rightarrow> bool) \<Rightarrow> conn \<Rightarrow> log_rec list \<Rightarrow> error option \<times> conn" where
  "songplay_loop sel fails c [] = (None, c)"
| "songplay_loop sel fails c (row # df) =
     (case songplay_step sel fails c row of
        (Some e, c') \<Rightarrow> (Some e, c')
      | (None, c') \<Rightarrow> songplay_loop sel fails c' df)"

subsection \<open>The cells of the log data, in order\<close>

definition process_log_file ::
    "(query \<Rightarrow> (string \<times> string) option) \<Rightarrow> (nat \<Rightarrow> bool) \<Rightarrow> conn \<Rightarrow> log_rec list \<Rightarrow> error option \<times> conn" where
  "process_log_file sel fails c df0 =
     (let df = df_NextSong df0
      in case to_datetime_series (map ts df) of
           Inl e \<Rightarrow> (Some e, c)
         | Inr t \<Rightarrow>
             (case execute_values fails time_table_insert c (time_data t) of
                (Some e, c1) \<Rightarrow> (Some e, c1)
              | (None, c1) \<Rightarrow>
                  (case commit fails c1 of
                     (Some e, c2) \<Rightarrow> (Some e, c2)
                   | (None, c2) \<Rightarrow>
                       (case execute_values fails user_table_insert c2 (user_tuples df) of
                          (Some e, c3) \<Rightarrow> (Some e, c3)
                        | (None, c3) \<Rightarrow>
                            (case commit fails c3 of
                               (Some e, c4) \<Rightarrow> (Some e, c4)
                             | (None, c4) \<Rightarrow> songplay_loop sel fails c4 df)))))"

definition empty_store :: store where
  "empty_store = \<lparr>time_tbl = [], users_tbl = [], songplays_tbl = []\<rparr>"

definition connect :: conn where
  \<comment> \<open>a fresh connection to a store whose tables were just created\<close>
  "connect = \<lparr>durable = empty_store, session = empty_store, executed = [], clock = 0\<rparr>"

section \<open>Sample data\<close>

text \<open>
  The first record of the song data and the first two records of the log data, as the
  notebook prints them.  The printed user agent is cut short and the registration time
  is rounded; neither is used below.
\<close>

definition adam_ant :: song_rec where
  "adam_ant =
     \<lparr>num_songs = 1, artist_id = ''AR7G5I41187FB4CE6C'', artist_latitude = NaN,
      artist_longitude = NaN, artist_location = ''London, England'',
      artist_name = ''Adam Ant'', song_id = ''SONHOTT12A8C13493C'',
      title = ''Something Girls'', duration = F64 (23340363 / 100000), year = 1982\<rparr>"

definition event_0 :: log_rec where
  "event_0 =
     \<lparr>artist = Some ''Frumpies'', auth = ''Logged In'', firstName = Some ''Anabelle'',
      gender = Some ''F'', itemInSession = 0, lastName = Some ''Simpson'',
      length_s = F64 (13447791 / 100000), level = ''free'',
      location = Some ''Philadelphia-Camden-Wilmington, PA-NJ-DE-MD'', http_method = ''PUT'',
      page = ''NextSong'', registration = F64 1541044000000, sessionId = 455,
      song = Some ''Fuck Kitty'', status = 200, ts = 1541903636796,
      userAgent = Some ''Mozilla/5.0 (Macintosh; Intel Mac OS X 10_9_4'',
      userId = Some ''69''\<rparr>"

definition event_1 :: log_rec where
  "event_1 =
     event_0\<lparr>artist := Some ''Kenny G with Peabo Bryson'', itemInSession := 1,
       length_s := F64 (26475057 / 100000), song := Some ''By The Time This Night Is Over'',
       ts := 1541903770796\<rparr>"

definition sample_songs :: "song_row list" where
  \<comment> \<open>a songs table holding the song of the first event, under made-up identifiers\<close>
  "sample_songs = [(''S1'', ''Fuck Kitty'', ''A1'', 0, F64 (13447791 / 100000))]"

definition sample_artists :: "artist_row list" where
  "sample_artists = [(''A1'', ''Frumpies'', [], NaN, NaN)]"

definition always_up :: "nat \<Rightarrow> bool" where
  \<comment> \<open>a store that accepts every write and every commit\<close>
  "always_up n = False"

section \<open>Properties\<close>

subsection \<open>The page filter\<close>

lemma df_NextSong_append: "df_NextSong (xs @ ys) = df_NextSong xs @ df_NextSong ys"
  by (simp add: df_NextSong_def)

lemma df_NextSong_Cons:
  "df_NextSong (e # ys) = (if page e = ''NextSong'' then e # df_NextSong ys else df_NextSong ys)"
  by (simp add: df_NextSong_def)

subsection \<open>Song data\<close>

text \<open>
  C7.  The songs and artists rows are a projection of the song data frame: row by row,
  in order, the song row is the five columns song id, title, artist id, year and duration
  of the record and the artist row its artist id, name, location, latitude and longitude,
  unchanged (a missing latitude or longitude stays missing).  Both are functions of the
  frame alone, so the same frame gives the same rows.  The record of ``Something Girls''
  gives one song row and the artist row of Adam Ant with no latitude and no longitude.
\<close>

theorem song_artist_projection:
  "list_all2 (\<lambda>x r. r = (song_id x, title x, artist_id x, year x, duration x))
     df (song_tuples df) \<and>
   list_all2 (\<lambda>x r. r = (artist_id x, artist_name x, artist_location x, artist_latitude x,
                         artist_longitude x)) df (artist_tuples df) \<and>
   song_tuples [adam_ant] =
     [(''SONHOTT12A8C13493C'', ''Something Girls'', ''AR7G5I41187FB4CE6C'', 1982,
       F64 (23340363 / 100000))] \<and>
   artist_tuples [adam_ant] =
     [(''AR7G5I41187FB4CE6C'', ''Adam Ant'', ''London, England'', NaN, NaN)]"
  by (simp add: song_tuples_def artist_tuples_def adam_ant_def list_all2_map2 list_all2_same)

subsection \<open>Events that are not plays\<close>

text \<open>
  C3.  An event whose page is not \<^verbatim>\<open>NextSong\<close> leaves no trace: deleting it from the log
  changes neither the outcome of processing the file nor the connection it leaves (the
  time, users and songplays tables, the lookups executed, the statements sent).  Its
  timestamp is never converted and it never enters the songplays loop.
\<close>

theorem non_play_event_erased:
  assumes "page e \<noteq> ''NextSong''"
  shows "process_log_file sel fails c (xs @ e # ys) = process_log_file sel fails c (xs @ ys)"
  using assms by (simp add: process_log_file_def df_NextSong_append df_NextSong_Cons)

theorem non_play_event_erased_witness:
  "page (event_0\<lparr>page := ''Home''\<rparr>) \<noteq> ''NextSong'' \<and>
   process_log_file (\<lambda>q. None) always_up connect [event_0\<lparr>page := ''Home''\<rparr>] =
     (None, connect\<lparr>clock := 2\<rparr>)"
proof -
  have h: "page (event_0\<lparr>page := ''Home''\<rparr>) \<noteq> ''NextSong''"
    by simp
  have "process_log_file (\<lambda>q. None) always_up connect ([] @ event_0\<lparr>page := ''Home''\<rparr> # []) =
        process_log_file (\<lambda>q. None) always_up connect ([] @ [])"
    using h by (rule non_play_event_erased)
  moreover have "process_log_file (\<lambda>q. None) always_up connect [] = (None, connect\<lparr>clock := 2\<rparr>)"
    by (simp add: process_log_file_def df_NextSong_def time_data_def user_tuples_def
        execute_values_def commit_def always_up_def connect_def)
  ultimately show ?thesis
    using h by simp
qed

subsection \<open>The songplays loop, one event at a time\<close>

lemma songplay_data_eq:
  "songplay_data results row =
     (case to_datetime (ts row) of
        Inl e \<Rightarrow> Inl e
      | Inr x \<Rightarrow>
          Inr (isoformat x, userId row, level row, map_option fst results,
               map_option snd results, sessionId row, location row, userAgent row))"
  by (cases results) (auto simp: songplay_data_def split: sum.splits)


lemma songplay_step_accepted:
  assumes "songplay_data (sel (song_select_args row)) row = Inr d"
    and "\<not> fails (clock c)" and "\<not> fails (Suc (clock c))"
  shows "songplay_step sel fails c row =
     (None, c\<lparr>executed := executed c @ [song_select_args row],
              session := songplay_table_insert (session c) [d],
              durable := songplay_table_insert (session c) [d],
              clock := Suc (Suc (clock c))\<rparr>)"
  using assms
  by (simp add: songplay_step_def execute_fetchone_def execute_values_def commit_def)





subsection \<open>Evaluating the sample events\<close>

lemma digits_numeral [simp]:
  "digits (numeral k) =
     (if numeral k < (10::nat) then [''0123456789'' ! numeral k]
      else digits (numeral k div 10) @ [''0123456789'' ! (numeral k mod 10)])"
  by (rule digits.simps)

lemma digits_small [simp]: "digits 0 = ''0''" "digits 1 = ''1''" "digits (Suc 0) = ''1''"
  by (simp_all add: digits.simps)

lemma ord2ymd_737009: "ord2ymd 737009 = (2018, 11, 11)"
  by (simp add: ord2ymd_def is_leapyear_def month_lengths_def)

lemma days_before_month_2018_11: "days_before_month 2018 11 = 304"
  by (simp add: days_before_month_def is_leapyear_def month_lengths_def)

lemma weekday_2018_11_11: "weekday 2018 11 11 = 6"
  by (simp add: weekday_def ymd2ord_def days_before_year_def days_before_month_2018_11)

lemma week_2018_11_11: "get_week_of_year 2018 11 11 = 45"
  by (simp add: get_week_of_year_def weekday_2018_11_11 days_before_month_2018_11)

lemma zfill_sample:
  "zfill 4 2018 = ''2018''" "zfill 2 11 = ''11''" "zfill 2 2 = ''02''" "zfill 2 33 = ''33''"
  "zfill 2 56 = ''56''" "zfill 6 796000 = ''796000''" "zfill 2 36 = ''36''" "zfill 2 10 = ''10''"
  by (simp_all add: zfill_def)

lemmas dt_time_defs = dt_hour_def dt_minute_def dt_second_def dt_microsecond_def dt_nanosecond_def

lemma time_tuple_event_0:
  "time_tuple (Timestamp 1541903636796000000) =
     (''2018-11-11 02:33:56.796000'', 2, 11, 45, 11, 2018, 6)"
  by (simp add: time_tuple_def isoformat_def dt_year_def dt_month_def dt_day_def dt_ordinal_def
      ord2ymd_737009 dt_week_def dt_dayofweek_def weekday_2018_11_11 week_2018_11_11
      zfill_sample dt_time_defs)

lemma time_tuple_event_1:
  "time_tuple (Timestamp 1541903770796000000) =
     (''2018-11-11 02:36:10.796000'', 2, 11, 45, 11, 2018, 6)"
  by (simp add: time_tuple_def isoformat_def dt_year_def dt_month_def dt_day_def dt_ordinal_def
      ord2ymd_737009 dt_week_def dt_dayofweek_def weekday_2018_11_11 week_2018_11_11
      zfill_sample dt_time_defs)

lemma isoformat_event_0:
  "isoformat (Timestamp 1541903636796000000) = ''2018-11-11 02:33:56.796000''"
  using time_tuple_event_0 by (simp add: time_tuple_def)

lemma isoformat_event_1:
  "isoformat (Timestamp 1541903770796000000) = ''2018-11-11 02:36:10.796000''"
  using time_tuple_event_1 by (simp add: time_tuple_def)

lemma to_datetime_event_0: "to_datetime (ts event_0) = Inr (Timestamp 1541903636796000000)"
  by (simp add: to_datetime_def event_0_def)

lemma to_datetime_event_1: "to_datetime (ts event_1) = Inr (Timestamp 1541903770796000000)"
  by (simp add: to_datetime_def event_1_def event_0_def)


lemma song_select_event_1:
  "song_select sample_songs sample_artists (song event_1, artist event_1, length_s event_1) = None"
  by (simp add: song_select_def sample_songs_def sample_artists_def event_1_def event_0_def)


subsection \<open>More on the loop\<close>

lemma songplay_step_outcome:
  "fst (songplay_step sel fails c row) =
     (case to_datetime (ts row) of
        Inl e \<Rightarrow> Some e
      | Inr x \<Rightarrow> if fails (clock c) \<or> fails (Suc (clock c)) then Some StorageError else None)"
  by (simp add: songplay_step_def execute_fetchone_def execute_values_def commit_def
      songplay_data_eq split: sum.splits)

lemma songplay_step_None:
  assumes "songplay_step sel fails c row = (None, c')"
  shows "\<exists>d. songplay_data (sel (song_select_args row)) row = Inr d \<and>
             c' = c\<lparr>executed := executed c @ [song_select_args row],
                     session := songplay_table_insert (session c) [d],
                     durable := songplay_table_insert (session c) [d],
                     clock := Suc (Suc (clock c))\<rparr>"
  using assms
  by (auto simp: songplay_step_def execute_fetchone_def execute_values_def commit_def
      split: sum.splits option.splits prod.splits if_splits)

lemma songplay_step_Some:
  assumes "songplay_step sel fails c row = (Some e, c')"
  shows "durable c' = durable c"
  using assms
  by (auto simp: songplay_step_def execute_fetchone_def execute_values_def commit_def
      split: sum.splits option.splits prod.splits if_splits)

lemma songplay_loop_None:
  assumes "songplay_loop sel fails c df = (None, c')"
  shows "\<exists>rows. map (\<lambda>row. songplay_data (sel (song_select_args row)) row) df = map Inr rows \<and>
           session c' = songplay_table_insert (session c) rows \<and>
           durable c' = (if df = [] then durable c else session c') \<and>
           executed c' = executed c @ map song_select_args df"
  using assms
proof (induction df arbitrary: c)
  case Nil
  then show ?case by (simp add: songplay_table_insert_def)
next
  case (Cons row df)
  from Cons.prems obtain c1 where s: "songplay_step sel fails c row = (None, c1)"
    and l: "songplay_loop sel fails c1 df = (None, c')"
    by (auto split: prod.splits option.splits)
  from songplay_step_None [OF s] obtain d where
    d: "songplay_data (sel (song_select_args row)) row = Inr d"
    and c1: "c1 = c\<lparr>executed := executed c @ [song_select_args row],
                     session := songplay_table_insert (session c) [d],
                     durable := songplay_table_insert (session c) [d],
                     clock := Suc (Suc (clock c))\<rparr>"
    by blast
  from Cons.IH [OF l] obtain rows where
    r: "map (\<lambda>row. songplay_data (sel (song_select_args row)) row) df = map Inr rows"
    and s': "session c' = songplay_table_insert (session c1) rows"
    and d': "durable c' = (if df = [] then durable c1 else session c')"
    and e': "executed c' = executed c1 @ map song_select_args df"
    by blast
  show ?case
  proof (intro exI [of _ "d # rows"] conjI)
    show "map (\<lambda>row. songplay_data (sel (song_select_args row)) row) (row # df) =
        map Inr (d # rows)"
      using d r by simp
    show "session c' = songplay_table_insert (session c) (d # rows)"
      using s' c1 by (simp add: songplay_table_insert_def)
    show "durable c' = (if row # df = [] then durable c else session c')"
      using d' s' c1 r by (cases df) (auto simp: songplay_table_insert_def)
    show "executed c' = executed c @ map song_select_args (row # df)"
      using e' c1 by simp
  qed
qed

lemma songplay_loop_Some:
  assumes "songplay_loop sel fails c df = (Some e, c')"
  shows "\<exists>k ck. k < length df \<and> songplay_loop sel fails c (take k df) = (None, ck) \<and>
           songplay_step sel fails ck (df ! k) = (Some e, c')"
  using assms
proof (induction df arbitrary: c)
  case Nil
  then show ?case by simp
next
  case (Cons row df)
  show ?case
  proof (cases "songplay_step sel fails c row")
    case (Pair r c1)
    show ?thesis
    proof (cases r)
      case None
      with Pair Cons.prems have "songplay_loop sel fails c1 df = (Some e, c')"
        by simp
      from Cons.IH [OF this] obtain k ck where "k < length df"
        "songplay_loop sel fails c1 (take k df) = (None, ck)"
        "songplay_step sel fails ck (df ! k) = (Some e, c')"
        by blast
      then show ?thesis
        using Pair None by (intro exI [of _ "Suc k"] exI [of _ ck]) simp
    next
      case (Some e')
      with Pair Cons.prems have "songplay_step sel fails c row = (Some e, c')"
        by simp
      then show ?thesis
        by (intro exI [of _ 0] exI [of _ c]) simp
    qed
  qed
qed

text \<open>
  C2.  When the lookup finds nothing, the tuple is built as in the other case, with no
  song id and no artist id.  Whether the turn of the loop raises does not depend on what
  the lookup returned; and when the timestamp converts and the store accepts the write and
  the commit, the row with the two missing identifiers is in the songplays table.
\<close>

theorem no_match_row_still_emitted:
  assumes "sel (song row, artist row, length_s row) = None"
  shows "songplay_data (sel (song row, artist row, length_s row)) row =
           (case to_datetime (ts row) of
              Inl e \<Rightarrow> Inl e
            | Inr x \<Rightarrow>
                Inr (fst (time_tuple x), userId row, level row, None, None, sessionId row,
                     location row, userAgent row)) \<and>
         fst (songplay_step sel fails c row) = fst (songplay_step sel' fails c row) \<and>
         (\<forall>x. to_datetime (ts row) = Inr x \<longrightarrow> \<not> fails (clock c) \<longrightarrow> \<not> fails (Suc (clock c)) \<longrightarrow>
            fst (songplay_step sel fails c row) = None \<and>
            songplays_tbl (durable (snd (songplay_step sel fails c row))) =
              songplays_tbl (session c) @
              [(fst (time_tuple x), userId row, level row, None, None, sessionId row,
                location row, userAgent row)])"
proof (intro conjI allI impI)
  show "songplay_data (sel (song row, artist row, length_s row)) row =
           (case to_datetime (ts row) of
              Inl e \<Rightarrow> Inl e
            | Inr x \<Rightarrow>
                Inr (fst (time_tuple x), userId row, level row, None, None, sessionId row,
                     location row, userAgent row))"
    using assms by (simp add: songplay_data_eq time_tuple_def split: sum.splits)
  show "fst (songplay_step sel fails c row) = fst (songplay_step sel' fails c row)"
    by (simp add: songplay_step_outcome)
next
  fix x
  assume x: "to_datetime (ts row) = Inr x"
    and up: "\<not> fails (clock c)" "\<not> fails (Suc (clock c))"
  let ?d = "(fst (time_tuple x), userId row, level row, None, None, sessionId row,
             location row, userAgent row)"
  have d: "songplay_data (sel (song_select_args row)) row = Inr ?d"
    using assms x by (simp add: songplay_data_eq time_tuple_def song_select_args_def)
  have step: "songplay_step sel fails c row =
     (None, c\<lparr>executed := executed c @ [song_select_args row],
              session := songplay_table_insert (session c) [?d],
              durable := songplay_table_insert (session c) [?d],
              clock := Suc (Suc (clock c))\<rparr>)"
    using d up by (rule songplay_step_accepted)
  show "fst (songplay_step sel fails c row) = None"
    by (simp add: step)
  show "songplays_tbl (durable (snd (songplay_step sel fails c row))) =
          songplays_tbl (session c) @ [?d]"
    by (simp add: step songplay_table_insert_def)
qed

theorem no_match_row_still_emitted_witness:
  "song_select sample_songs sample_artists (song event_1, artist event_1, length_s event_1) =
     None \<and>
   fst (songplay_step (song_select sample_songs sample_artists) always_up connect event_1) =
     None \<and>
   songplays_tbl (durable (snd (songplay_step (song_select sample_songs sample_artists)
       always_up connect event_1))) =
     [(''2018-11-11 02:36:10.796000'', Some ''69'', ''free'', None, None, 455,
       Some ''Philadelphia-Camden-Wilmington, PA-NJ-DE-MD'',
       Some ''Mozilla/5.0 (Macintosh; Intel Mac OS X 10_9_4'')]"
proof -
  note th = no_match_row_still_emitted [where sel = "song_select sample_songs sample_artists"
      and row = event_1 and fails = always_up and c = connect, OF song_select_event_1]
  have up: "\<not> always_up (clock connect)" "\<not> always_up (Suc (clock connect))"
    by (simp_all add: always_up_def)
  have s: "songplays_tbl (session connect) = []"
    by (simp add: connect_def empty_store_def)
  have f: "userId event_1 = Some ''69''" "level event_1 = ''free''" "sessionId event_1 = 455"
    "location event_1 = Some ''Philadelphia-Camden-Wilmington, PA-NJ-DE-MD''"
    "userAgent event_1 = Some ''Mozilla/5.0 (Macintosh; Intel Mac OS X 10_9_4''"
    by (simp_all add: event_1_def event_0_def)
  from th to_datetime_event_1 up show ?thesis
    by (simp add: song_select_event_1 s f time_tuple_event_1)
qed

subsection \<open>The cells in sequence\<close>

lemma to_datetime_series_Inr:
  assumes "to_datetime_series mss = Inr t"
  shows "map to_datetime mss = map Inr t"
  using assms by (induction mss arbitrary: t) (auto split: sum.splits)

lemma execute_values_None:
  assumes "execute_values fails statement c argslist = (None, c')"
  shows "c' = (if argslist = [] then c
               else c\<lparr>session := statement (session c) argslist, clock := Suc (clock c)\<rparr>)"
  using assms by (auto simp: execute_values_def split: if_splits)

lemma commit_None:
  assumes "commit fails c = (None, c')"
  shows "c' = c\<lparr>durable := session c, clock := Suc (clock c)\<rparr>"
  using assms by (auto simp: commit_def split: if_splits)

lemma insert_or_ignore_keys:
  "fst ` set (foldl insert_or_ignore tbl rows) = fst ` set tbl \<union> fst ` set rows"
  by (induction rows arbitrary: tbl) auto

lemma process_log_file_None:
  assumes "process_log_file sel fails c df0 = (None, c')"
  shows "\<exists>t rows.
           to_datetime_series (map ts (df_NextSong df0)) = Inr t \<and>
           map (\<lambda>row. songplay_data (sel (song_select_args row)) row) (df_NextSong df0) =
             map Inr rows \<and>
           durable c' = session c' \<and>
           time_tbl (session c') = foldl insert_or_ignore (time_tbl (session c)) (time_data t) \<and>
           songplays_tbl (session c') = songplays_tbl (session c) @ rows"
proof -
  let ?df = "df_NextSong df0"
  from assms obtain t c1 c2 c3 c4 where
    t: "to_datetime_series (map ts ?df) = Inr t"
    and c1: "execute_values fails time_table_insert c (time_data t) = (None, c1)"
    and c2: "commit fails c1 = (None, c2)"
    and c3: "execute_values fails user_table_insert c2 (user_tuples ?df) = (None, c3)"
    and c4: "commit fails c3 = (None, c4)"
    and l: "songplay_loop sel fails c4 ?df = (None, c')"
    by (auto simp: process_log_file_def Let_def split: sum.splits prod.splits option.splits)
  from songplay_loop_None [OF l] obtain rows where
    r: "map (\<lambda>row. songplay_data (sel (song_select_args row)) row) ?df = map Inr rows"
    and s: "session c' = songplay_table_insert (session c4) rows"
    and d: "durable c' = (if ?df = [] then durable c4 else session c')"
    by blast
  have s1: "time_tbl (session c1) = foldl insert_or_ignore (time_tbl (session c)) (time_data t)"
    "songplays_tbl (session c1) = songplays_tbl (session c)"
    using execute_values_None [OF c1] by (auto simp: time_table_insert_def)
  have s2: "session c2 = session c1"
    using commit_None [OF c2] by simp
  have s3: "time_tbl (session c3) = time_tbl (session c2)"
    "songplays_tbl (session c3) = songplays_tbl (session c2)"
    using execute_values_None [OF c3] by (auto simp: user_table_insert_def)
  have s4: "session c4 = session c3" "durable c4 = session c3"
    using commit_None [OF c4] by simp_all
  have "durable c' = session c'"
    using d s s4 r by (cases "?df = []") (auto simp: songplay_table_insert_def)
  moreover have "time_tbl (session c') =
      foldl insert_or_ignore (time_tbl (session c)) (time_data t)"
    using s s4 s3 s2 s1 by (simp add: songplay_table_insert_def)
  moreover have "songplays_tbl (session c') = songplays_tbl (session c) @ rows"
    using s s4 s3 s2 s1 by (simp add: songplay_table_insert_def)
  ultimately show ?thesis
    using t r by blast
qed

lemma songplay_data_start_time:
  "map_sum id fst (songplay_data results row) =
     map_sum id (\<lambda>x. fst (time_tuple x)) (to_datetime (ts row))"
  by (simp add: songplay_data_eq time_tuple_def split: sum.splits)

lemma new_songplays_have_time_keys:
  assumes t: "to_datetime_series (map ts df) = Inr t"
    and r: "map (\<lambda>row. songplay_data (sel (song_select_args row)) row) df = map Inr rows"
  shows "map fst rows = map fst (time_data t)"
proof -
  have "map Inr (map fst rows) =
      map (\<lambda>row. map_sum id fst (songplay_data (sel (song_select_args row)) row)) df"
    using arg_cong [OF r, of "map (map_sum id fst)"] by (simp add: comp_def)
  also have "\<dots> = map (\<lambda>row. map_sum id (\<lambda>x. fst (time_tuple x)) (to_datetime (ts row))) df"
    by (simp add: songplay_data_start_time)
  also have "\<dots> = map (map_sum id (\<lambda>x. fst (time_tuple x))) (map to_datetime (map ts df))"
    by (simp add: comp_def)
  also have "\<dots> = map (map_sum id (\<lambda>x. fst (time_tuple x))) (map Inr t)"
    by (simp only: to_datetime_series_Inr [OF t])
  also have "\<dots> = map Inr (map fst (time_data t))"
    by (simp add: time_data_def comp_def)
  finally have "map (Inr :: string \<Rightarrow> error + string) (map fst rows) =
      map Inr (map fst (time_data t))" .
  then show ?thesis
    by (rule map_injective) (rule inj_Inr)
qed

text \<open>
  C9.  The start time of the songplays tuple of an event is the start time of the time
  tuple of the same timestamp: both are \<^verbatim>\<open>str(pd.to_datetime(ts, unit='ms'))\<close>, and both raise
  together.  So processing a log file keeps this property of the store: every start time
  in the songplays table is a key of the time table.
\<close>

theorem songplay_start_time_is_time_key:
  "map_sum id fst (songplay_data results row) =
     map_sum id (\<lambda>x. fst (time_tuple x)) (to_datetime (ts row)) \<and>
   (process_log_file sel fails c df0 = (None, c') \<longrightarrow>
    set (map fst (songplays_tbl (session c))) \<subseteq> set (map fst (time_tbl (session c))) \<longrightarrow>
    set (map fst (songplays_tbl (durable c'))) \<subseteq> set (map fst (time_tbl (durable c'))))"
proof (intro conjI impI)
  show "map_sum id fst (songplay_data results row) =
     map_sum id (\<lambda>x. fst (time_tuple x)) (to_datetime (ts row))"
    by (rule songplay_data_start_time)
next
  assume p: "process_log_file sel fails c df0 = (None, c')"
    and inv: "set (map fst (songplays_tbl (session c))) \<subseteq> set (map fst (time_tbl (session c)))"
  from process_log_file_None [OF p] obtain t rows where
    t: "to_datetime_series (map ts (df_NextSong df0)) = Inr t"
    and r: "map (\<lambda>row. songplay_data (sel (song_select_args row)) row) (df_NextSong df0) =
             map Inr rows"
    and d: "durable c' = session c'"
    and tt: "time_tbl (session c') = foldl insert_or_ignore (time_tbl (session c)) (time_data t)"
    and ss: "songplays_tbl (session c') = songplays_tbl (session c) @ rows"
    by blast
  have "set (map fst rows) = set (map fst (time_data t))"
    using new_songplays_have_time_keys [OF t r] by simp
  then show "set (map fst (songplays_tbl (durable c'))) \<subseteq> set (map fst (time_tbl (durable c')))"
    using inv by (auto simp: d tt ss insert_or_ignore_keys simp del: insert_or_ignore.simps)
qed

subsection \<open>The two sample events, end to end\<close>

lemma df_NextSong_sample: "df_NextSong [event_0, event_1] = [event_0, event_1]"
  by (simp add: df_NextSong_def event_0_def event_1_def)

lemma to_datetime_series_sample:
  "to_datetime_series [ts event_0, ts event_1] =
     Inr [Timestamp 1541903636796000000, Timestamp 1541903770796000000]"
  by (simp add: to_datetime_event_0 to_datetime_event_1)

lemma time_data_sample:
  "time_data [Timestamp 1541903636796000000, Timestamp 1541903770796000000] =
     [(''2018-11-11 02:33:56.796000'', 2, 11, 45, 11, 2018, 6),
      (''2018-11-11 02:36:10.796000'', 2, 11, 45, 11, 2018, 6)]"
  by (simp add: time_data_def time_tuple_event_0 time_tuple_event_1)

lemma user_tuples_sample:
  "user_tuples [event_0, event_1] =
     [(Some ''69'', Some ''Anabelle'', Some ''Simpson'', Some ''F'', ''free''),
      (Some ''69'', Some ''Anabelle'', Some ''Simpson'', Some ''F'', ''free'')]"
  by (simp add: user_tuples_def event_0_def event_1_def)

lemma songplay_data_sample:
  "songplay_data results event_0 =
     Inr (''2018-11-11 02:33:56.796000'', Some ''69'', ''free'', map_option fst results,
          map_option snd results, 455, Some ''Philadelphia-Camden-Wilmington, PA-NJ-DE-MD'',
          Some ''Mozilla/5.0 (Macintosh; Intel Mac OS X 10_9_4'')"
  "songplay_data results event_1 =
     Inr (''2018-11-11 02:36:10.796000'', Some ''69'', ''free'', map_option fst results,
          map_option snd results, 455, Some ''Philadelphia-Camden-Wilmington, PA-NJ-DE-MD'',
          Some ''Mozilla/5.0 (Macintosh; Intel Mac OS X 10_9_4'')"
  by (simp_all add: songplay_data_eq to_datetime_event_0 to_datetime_event_1 isoformat_event_0
      isoformat_event_1)
    (simp_all add: event_0_def event_1_def)

lemma process_log_file_sample:
  "process_log_file sel always_up connect [event_0, event_1] =
     (None,
      \<lparr>durable =
         \<lparr>time_tbl =
            [(''2018-11-11 02:33:56.796000'', 2, 11, 45, 11, 2018, 6),
             (''2018-11-11 02:36:10.796000'', 2, 11, 45, 11, 2018, 6)],
          users_tbl = [(Some ''69'', Some ''Anabelle'', Some ''Simpson'', Some ''F'', ''free'')],
          songplays_tbl =
            [(''2018-11-11 02:33:56.796000'', Some ''69'', ''free'',
              map_option fst (sel (song_select_args event_0)),
              map_option snd (sel (song_select_args event_0)), 455,
              Some ''Philadelphia-Camden-Wilmington, PA-NJ-DE-MD'',
              Some ''Mozilla/5.0 (Macintosh; Intel Mac OS X 10_9_4''),
             (''2018-11-11 02:36:10.796000'', Some ''69'', ''free'',
              map_option fst (sel (song_select_args event_1)),
              map_option snd (sel (song_select_args event_1)), 455,
              Some ''Philadelphia-Camden-Wilmington, PA-NJ-DE-MD'',
              Some ''Mozilla/5.0 (Macintosh; Intel Mac OS X 10_9_4'')]\<rparr>,
       session =
         \<lparr>time_tbl =
            [(''2018-11-11 02:33:56.796000'', 2, 11, 45, 11, 2018, 6),
             (''2018-11-11 02:36:10.796000'', 2, 11, 45, 11, 2018, 6)],
          users_tbl = [(Some ''69'', Some ''Anabelle'', Some ''Simpson'', Some ''F'', ''free'')],
          songplays_tbl =
            [(''2018-11-11 02:33:56.796000'', Some ''69'', ''free'',
              map_option fst (sel (song_select_args event_0)),
              map_option snd (sel (song_select_args event_0)), 455,
              Some ''Philadelphia-Camden-Wilmington, PA-NJ-DE-MD'',
              Some ''Mozilla/5.0 (Macintosh; Intel Mac OS X 10_9_4''),
             (''2018-11-11 02:36:10.796000'', Some ''69'', ''free'',
              map_option fst (sel (song_select_args event_1)),
              map_option snd (sel (song_select_args event_1)), 455,
              Some ''Philadelphia-Camden-Wilmington, PA-NJ-DE-MD'',
              Some ''Mozilla/5.0 (Macintosh; Intel Mac OS X 10_9_4'')]\<rparr>,
       executed = [song_select_args event_0, song_select_args event_1],
       clock = 8\<rparr>)"
  by (simp add: process_log_file_def df_NextSong_sample to_datetime_series_sample
      time_data_sample user_tuples_sample execute_values_def commit_def always_up_def
      connect_def empty_store_def time_table_insert_def user_table_insert_def
      songplay_table_insert_def songplay_step_def execute_fetchone_def songplay_data_sample
      del: to_datetime_series.simps)


theorem songplay_start_time_is_time_key_witness:
  "fst (process_log_file (song_select sample_songs sample_artists) always_up connect
       [event_0, event_1]) = None \<and>
   map fst (songplays_tbl (durable (snd (process_log_file
       (song_select sample_songs sample_artists) always_up connect [event_0, event_1])))) =
     [''2018-11-11 02:33:56.796000'', ''2018-11-11 02:36:10.796000''] \<and>
   set (map fst (songplays_tbl (durable (snd (process_log_file
       (song_select sample_songs sample_artists) always_up connect [event_0, event_1])))))
     \<subseteq> set (map fst (time_tbl (durable (snd (process_log_file
       (song_select sample_songs sample_artists) always_up connect [event_0, event_1])))))"
proof -
  let ?p = "process_log_file (song_select sample_songs sample_artists) always_up connect
       [event_0, event_1]"
  have n: "fst ?p = None"
    by (simp add: process_log_file_sample)
  then have p: "?p = (None, snd ?p)"
    by (simp add: prod_eq_iff)
  have i: "set (map fst (songplays_tbl (session connect)))
      \<subseteq> set (map fst (time_tbl (session connect)))"
    by (simp add: connect_def empty_store_def)
  have "set (map fst (songplays_tbl (durable (snd ?p))))
      \<subseteq> set (map fst (time_tbl (durable (snd ?p))))"
    using songplay_start_time_is_time_key [where c' = "snd ?p"] p i by blast
  moreover have "map fst (songplays_tbl (durable (snd ?p))) =
      [''2018-11-11 02:33:56.796000'', ''2018-11-11 02:36:10.796000'']"
    by (simp add: process_log_file_sample)
  ultimately show ?thesis
    using n by blast
qed

subsection \<open>One commit for each songplay row\<close>

text \<open>
  C10.  The loop commits after each row.  When it raises at some event, be it on the
  write, on the commit or on the timestamp, the events before it were processed without
  error and their rows are in the durable songplays table, after the rows that were there
  when the loop began; the row of the failing event is not.
\<close>

theorem songplay_rows_before_failure_stay_committed:
  assumes "songplay_loop sel fails c df = (Some e, c')"
    and "session c = durable c"
  shows "\<exists>k ck rows.
           k < length df \<and>
           songplay_loop sel fails c (take k df) = (None, ck) \<and>
           songplay_step sel fails ck (df ! k) = (Some e, c') \<and>
           map (\<lambda>row. songplay_data (sel (song_select_args row)) row) (take k df) =
             map Inr rows \<and>
           songplays_tbl (durable c') = songplays_tbl (durable c) @ rows"
proof -
  from songplay_loop_Some [OF assms(1)] obtain k ck where
    k: "k < length df"
    and l: "songplay_loop sel fails c (take k df) = (None, ck)"
    and s: "songplay_step sel fails ck (df ! k) = (Some e, c')"
    by blast
  from songplay_loop_None [OF l] obtain rows where
    r: "map (\<lambda>row. songplay_data (sel (song_select_args row)) row) (take k df) = map Inr rows"
    and ss: "session ck = songplay_table_insert (session c) rows"
    and d: "durable ck = (if take k df = [] then durable c else session ck)"
    by blast
  have "rows = []" if "take k df = []"
    using r that by simp
  then have "songplays_tbl (durable ck) = songplays_tbl (durable c) @ rows"
    using d ss assms(2) by (auto simp: songplay_table_insert_def)
  moreover have "durable c' = durable ck"
    using s by (rule songplay_step_Some)
  ultimately show ?thesis
    using k l s r by auto
qed

lemma songplay_loop_sample_failure:
  "songplay_loop (\<lambda>q. None) (\<lambda>n. n = 2) connect [event_0, event_1] =
     (Some StorageError,
      \<lparr>durable =
         \<lparr>time_tbl = [], users_tbl = [],
          songplays_tbl =
            [(''2018-11-11 02:33:56.796000'', Some ''69'', ''free'', None, None, 455,
              Some ''Philadelphia-Camden-Wilmington, PA-NJ-DE-MD'',
              Some ''Mozilla/5.0 (Macintosh; Intel Mac OS X 10_9_4'')]\<rparr>,
       session =
         \<lparr>time_tbl = [], users_tbl = [],
          songplays_tbl =
            [(''2018-11-11 02:33:56.796000'', Some ''69'', ''free'', None, None, 455,
              Some ''Philadelphia-Camden-Wilmington, PA-NJ-DE-MD'',
              Some ''Mozilla/5.0 (Macintosh; Intel Mac OS X 10_9_4'')]\<rparr>,
       executed = [song_select_args event_0, song_select_args event_1],
       clock = 3\<rparr>)"
  by (simp add: execute_values_def commit_def connect_def empty_store_def
      songplay_table_insert_def songplay_step_def execute_fetchone_def songplay_data_sample)

theorem songplay_rows_before_failure_stay_committed_witness:
  "fst (songplay_loop (\<lambda>q. None) (\<lambda>n. n = 2) connect [event_0, event_1]) = Some StorageError \<and>
   session connect = durable connect \<and>
   (\<exists>k ck rows.
      k < length [event_0, event_1] \<and>
      songplay_loop (\<lambda>q. None) (\<lambda>n. n = 2) connect (take k [event_0, event_1]) = (None, ck) \<and>
      map (\<lambda>row. songplay_data None row) (take k [event_0, event_1]) = map Inr rows \<and>
      songplays_tbl (durable (snd (songplay_loop (\<lambda>q. None) (\<lambda>n. n = 2) connect
          [event_0, event_1]))) = songplays_tbl (durable connect) @ rows) \<and>
   songplays_tbl (durable (snd (songplay_loop (\<lambda>q. None) (\<lambda>n. n = 2) connect
       [event_0, event_1]))) =
     [(''2018-11-11 02:33:56.796000'', Some ''69'', ''free'', None, None, 455,
       Some ''Philadelphia-Camden-Wilmington, PA-NJ-DE-MD'',
       Some ''Mozilla/5.0 (Macintosh; Intel Mac OS X 10_9_4'')]"
proof -
  let ?l = "songplay_loop (\<lambda>q. None) (\<lambda>n. n = 2) connect [event_0, event_1]"
  have f: "fst ?l = Some StorageError"
    unfolding songplay_loop_sample_failure by simp
  then have l: "?l = (Some StorageError, snd ?l)"
    by (simp add: prod_eq_iff)
  have c: "session connect = durable connect"
    by (simp add: connect_def)
  from songplay_rows_before_failure_stay_committed [OF l c]
  have "\<exists>k ck rows.
      k < length [event_0, event_1] \<and>
      songplay_loop (\<lambda>q. None) (\<lambda>n. n = 2) connect (take k [event_0, event_1]) = (None, ck) \<and>
      map (\<lambda>row. songplay_data None row) (take k [event_0, event_1]) = map Inr rows \<and>
      songplays_tbl (durable (snd ?l)) = songplays_tbl (durable connect) @ rows"
    by blast
  moreover have "songplays_tbl (durable (snd ?l)) =
     [(''2018-11-11 02:33:56.796000'', Some ''69'', ''free'', None, None, 455,
       Some ''Philadelphia-Camden-Wilmington, PA-NJ-DE-MD'',
       Some ''Mozilla/5.0 (Macintosh; Intel Mac OS X 10_9_4'')]"
    unfolding songplay_loop_sample_failure by simp
  ultimately show ?thesis
    using f c by blast
qed

subsection \<open>The users batch\<close>

lemma upsert_level_keys: "fst ` set (upsert_level tbl r) = insert (fst r) (fst ` set tbl)"
  by (induction tbl r rule: upsert_level.induct) auto

lemma upsert_level_distinct:
  "distinct (map fst tbl) \<Longrightarrow> distinct (map fst (upsert_level tbl r))"
proof (induction tbl r rule: upsert_level.induct)
  case (1 r)
  then show ?case by simp
next
  case (2 uid fname lname g lvl tbl uid' fname' lname' g' lvl')
  then show ?case
    using upsert_level_keys [of tbl "(uid', fname', lname', g', lvl')"] by auto
qed

lemma foldl_upsert_level_distinct:
  "distinct (map fst tbl) \<Longrightarrow> distinct (map fst (foldl upsert_level tbl rows))"
  by (induction rows arbitrary: tbl) (simp_all add: upsert_level_distinct del: upsert_level.simps)

text \<open>
  C4 (as amended).  The users batch is taken from the filtered frame with no test on the
  user id: an event gives one users row, made of its user id, first name, last name,
  gender and level, exactly when its page is \<^verbatim>\<open>NextSong\<close>, whatever its user id.  The
  claim as stated fails: a play event with an empty or a missing user id gives a row, and
  an event of another page with a user id gives none.
\<close>

theorem user_row_per_play_event:
  "user_tuples (df_NextSong [e]) =
     (if page e = ''NextSong''
      then [(userId e, firstName e, lastName e, gender e, level e)] else [])"
  by (simp add: user_tuples_def df_NextSong_def)

theorem user_row_for_empty_user_id_counterexample:
  "user_tuples (df_NextSong [event_0\<lparr>userId := Some []\<rparr>]) =
     [(Some [], Some ''Anabelle'', Some ''Simpson'', Some ''F'', ''free'')] \<and>
   user_tuples (df_NextSong [event_0\<lparr>userId := None\<rparr>]) =
     [(None, Some ''Anabelle'', Some ''Simpson'', Some ''F'', ''free'')] \<and>
   user_tuples (df_NextSong [event_0\<lparr>page := ''Home''\<rparr>]) = []"
  by (simp add: user_tuples_def df_NextSong_def event_0_def)

text \<open>
  C8.  The users batch has one row for each play event, in the order of the log, and none
  for any other event; rows of the same user are repeated.  Only the statement that
  inserts the batch keeps the user ids of the table distinct.
\<close>

theorem user_batch_keeps_duplicates:
  "user_tuples (df_NextSong (xs @ e # ys)) =
     user_tuples (df_NextSong xs) @
     (if page e = ''NextSong''
      then [(userId e, firstName e, lastName e, gender e, level e)] else []) @
     user_tuples (df_NextSong ys) \<and>
   (distinct (map fst (users_tbl st)) \<longrightarrow>
    distinct (map fst (users_tbl (user_table_insert st (user_tuples (df_NextSong df0))))))"
  by (simp add: user_tuples_def df_NextSong_def user_table_insert_def
      foldl_upsert_level_distinct)

theorem user_batch_keeps_duplicates_witness:
  "user_tuples (df_NextSong ([event_0] @ event_1 # [])) =
     [(Some ''69'', Some ''Anabelle'', Some ''Simpson'', Some ''F'', ''free''),
      (Some ''69'', Some ''Anabelle'', Some ''Simpson'', Some ''F'', ''free'')] \<and>
   distinct (map fst (users_tbl empty_store)) \<and>
   distinct (map fst (users_tbl (user_table_insert empty_store
     (user_tuples (df_NextSong [event_0, event_1]))))) \<and>
   users_tbl (user_table_insert empty_store (user_tuples (df_NextSong [event_0, event_1]))) =
     [(Some ''69'', Some ''Anabelle'', Some ''Simpson'', Some ''F'', ''free'')]"
proof -
  note th = user_batch_keeps_duplicates [of "[event_0]" event_1 "[]" empty_store
      "[event_0, event_1]"]
  have d: "distinct (map fst (users_tbl empty_store))"
    by (simp add: empty_store_def)
  have u: "users_tbl (user_table_insert empty_store
      (user_tuples (df_NextSong [event_0, event_1]))) =
     [(Some ''69'', Some ''Anabelle'', Some ''Simpson'', Some ''F'', ''free'')]"
    by (simp add: df_NextSong_sample user_tuples_sample user_table_insert_def empty_store_def)
  have b: "user_tuples (df_NextSong ([event_0] @ event_1 # [])) =
     [(Some ''69'', Some ''Anabelle'', Some ''Simpson'', Some ''F'', ''free''),
      (Some ''69'', Some ''Anabelle'', Some ''Simpson'', Some ''F'', ''free'')]"
    using df_NextSong_sample user_tuples_sample by simp
  from th d have "distinct (map fst (users_tbl (user_table_insert empty_store
     (user_tuples (df_NextSong [event_0, event_1])))))"
    by blast
  with b d u show ?thesis
    by blast
qed

subsection \<open>The scenario of two plays\<close>

lemma ymd2ord_sample: "ymd2ord 2018 11 11 = 737009" "ymd2ord 1970 1 1 = 719163"
  by (simp_all add: ymd2ord_def days_before_year_def days_before_month_def is_leapyear_def
      month_lengths_def)

lemma epoch_ms_sample:
  "epoch_ms 2018 11 11 2 33 56 796 = 1541903636796"
  "epoch_ms 2018 11 11 2 36 10 796 = 1541903770796"
  by (simp_all add: epoch_ms_def ymd2ord_sample)

text \<open>
  C6.  Processing the two sample plays of user 69, at 1541903636796 and 1541903770796
  milliseconds, on a store with empty tables ends without error and leaves two rows in the
  time table and one row for user 69 in the users table.  The start times of the two rows
  are the timestamps 2018-11-11 02:33:56.796 and 2018-11-11 02:36:10.796: the rows are the
  time tuples of these two instants, and \<^verbatim>\<open>str\<close> writes each start time as the date and
  time of the claim with the fraction filled to six digits.  Each row has hour 2, day 11,
  month 11 and year 2018 (and week 45, weekday 6).
\<close>

theorem two_play_events_scenario:
  "page event_0 = ''NextSong'' \<and> page event_1 = ''NextSong'' \<and>
   userId event_0 = Some ''69'' \<and> userId event_1 = Some ''69'' \<and>
   ts event_0 = 1541903636796 \<and> ts event_1 = 1541903770796 \<and>
   ts event_0 = epoch_ms 2018 11 11 2 33 56 796 \<and>
   ts event_1 = epoch_ms 2018 11 11 2 36 10 796 \<and>
   fst (process_log_file sel always_up connect [event_0, event_1]) = None \<and>
   time_tbl (durable (snd (process_log_file sel always_up connect [event_0, event_1]))) =
     [time_tuple (Timestamp (epoch_ms 2018 11 11 2 33 56 796 * 1000000)),
      time_tuple (Timestamp (epoch_ms 2018 11 11 2 36 10 796 * 1000000))] \<and>
   time_tbl (durable (snd (process_log_file sel always_up connect [event_0, event_1]))) =
     [(''2018-11-11 02:33:56.796'' @ ''000'', 2, 11, 45, 11, 2018, 6),
      (''2018-11-11 02:36:10.796'' @ ''000'', 2, 11, 45, 11, 2018, 6)] \<and>
   users_tbl (durable (snd (process_log_file sel always_up connect [event_0, event_1]))) =
     [(Some ''69'', Some ''Anabelle'', Some ''Simpson'', Some ''F'', ''free'')]"
  unfolding process_log_file_sample epoch_ms_sample
  by (simp add: event_0_def event_1_def time_tuple_event_0 time_tuple_event_1)

subsection \<open>The calendar\<close>

lemma month_of_yday_spec:
  assumes "month_of_yday ls k r = (m, d)" "0 \<le> r" "r < sum_list ls" "\<forall>l \<in> set ls. 0 < l"
  shows "k \<le> m \<and> m < k + int (length ls) \<and> 1 \<le> d \<and> d \<le> ls ! nat (m - k) \<and>
         sum_list (take (nat (m - k)) ls) + d = r + 1"
  using assms
proof (induction ls arbitrary: k r)
  case Nil
  then show ?case by simp
next
  case (Cons l ls)
  show ?case
  proof (cases "r < l")
    case True
    with Cons.prems show ?thesis by auto
  next
    case False
    with Cons.prems have rec: "month_of_yday ls (k + 1) (r - l) = (m, d)"
      and "0 \<le> r - l" "r - l < sum_list ls" "\<forall>l \<in> set ls. 0 < l"
      by auto
    from Cons.IH [OF this] have ih: "k + 1 \<le> m" "m < k + 1 + int (length ls)" "1 \<le> d"
      "d \<le> ls ! nat (m - (k + 1))" "sum_list (take (nat (m - (k + 1))) ls) + d = r - l + 1"
      by auto
    from ih(1) have "nat (m - k) = Suc (nat (m - (k + 1)))"
      by simp
    with ih show ?thesis
      by simp
  qed
qed

lemma days_before_year_split:
  assumes "0 \<le> b" "b \<le> 3" "0 \<le> c" "c \<le> 24" "0 \<le> e" "e \<le> 3"
  shows "days_before_year (400 * a + 100 * b + 4 * c + e + 1) =
           146097 * a + 36524 * b + 1461 * c + 365 * e"
proof -
  let ?p = "400 * a + 100 * b + 4 * c + e"
  have "?p div 4 = 100 * a + 25 * b + c" using assms by linarith
  moreover have "?p div 100 = 4 * a + b" using assms by linarith
  moreover have "?p div 400 = a" using assms by linarith
  ultimately show ?thesis
    by (simp add: days_before_year_def)
qed

lemma mod_eq_0_upto:
  fixes x k :: int
  assumes "0 < x" "x \<le> k"
  shows "x mod k = 0 \<longleftrightarrow> x = k"
proof (cases "x = k")
  case True
  then show ?thesis by simp
next
  case False
  with assms have "x mod k = x" by simp
  with assms False show ?thesis by simp
qed

lemma is_leapyear_split:
  assumes "0 \<le> b" "b \<le> 3" "0 \<le> c" "c \<le> 24" "0 \<le> e" "e \<le> 3"
  shows "is_leapyear (400 * a + 100 * b + 4 * c + e + 1) \<longleftrightarrow> e = 3 \<and> (c \<noteq> 24 \<or> b = 3)"
proof -
  let ?y = "400 * a + 100 * b + 4 * c + e + 1"
  have "?y = (e + 1) + 4 * (100 * a + 25 * b + c)" by simp
  then have "?y mod 4 = (e + 1) mod 4" by (simp only: mod_mult_self2)
  moreover have "(e + 1) mod 4 = 0 \<longleftrightarrow> e + 1 = 4"
    using assms by (intro mod_eq_0_upto) linarith+
  ultimately have m4: "?y mod 4 = 0 \<longleftrightarrow> e = 3"
    by (simp only:) linarith
  have "?y = (4 * c + e + 1) + 100 * (4 * a + b)" by simp
  then have "?y mod 100 = (4 * c + e + 1) mod 100" by (simp only: mod_mult_self2)
  moreover have "(4 * c + e + 1) mod 100 = 0 \<longleftrightarrow> 4 * c + e + 1 = 100"
    using assms by (intro mod_eq_0_upto) linarith+
  ultimately have m100: "?y mod 100 = 0 \<longleftrightarrow> c = 24 \<and> e = 3"
    using assms by (simp only:) linarith
  have "?y = (100 * b + 4 * c + e + 1) + 400 * a" by simp
  then have "?y mod 400 = (100 * b + 4 * c + e + 1) mod 400" by (simp only: mod_mult_self2)
  moreover have "(100 * b + 4 * c + e + 1) mod 400 = 0 \<longleftrightarrow> 100 * b + 4 * c + e + 1 = 400"
    using assms by (intro mod_eq_0_upto) linarith+
  ultimately have m400: "?y mod 400 = 0 \<longleftrightarrow> b = 3 \<and> c = 24 \<and> e = 3"
    using assms by (simp only:) linarith
  show ?thesis
    unfolding is_leapyear_def using m4 m100 m400 by auto
qed

lemma month_lengths_pos: "\<forall>l \<in> set (month_lengths leap). 0 < l"
  by (simp add: month_lengths_def)

lemma sum_list_month_lengths: "sum_list (month_lengths leap) = (if leap then 366 else 365)"
  by (simp add: month_lengths_def)

lemma length_month_lengths: "length (month_lengths leap) = 12"
  by (simp add: month_lengths_def)

lemma days_before_month_12: "days_before_month y 12 = (if is_leapyear y then 335 else 334)"
  by (simp add: days_before_month_def month_lengths_def)

lemma ord2ymd_valid:
  assumes "ord2ymd n = (y, m, d)"
  shows "1 \<le> m \<and> m \<le> 12 \<and> 1 \<le> d \<and> d \<le> month_lengths (is_leapyear y) ! nat (m - 1) \<and>
         ymd2ord y m d = n"
proof -
  define a where "a = (n - 1) div 146097"
  define r400 where "r400 = (n - 1) mod 146097"
  define b where "b = r400 div 36524"
  define r100 where "r100 = r400 mod 36524"
  define c where "c = r100 div 1461"
  define r4 where "r4 = r100 mod 1461"
  define e where "e = r4 div 365"
  define r1 where "r1 = r4 mod 365"
  define y0 where "y0 = a * 400 + 1 + b * 100 + c * 4 + e"
  have n: "n - 1 = 146097 * a + r400" and r400: "0 \<le> r400" "r400 < 146097"
    by (simp_all add: a_def r400_def)
  have r400': "r400 = 36524 * b + r100" and r100: "0 \<le> r100" "r100 < 36524"
    by (simp_all add: b_def r100_def)
  have r100': "r100 = 1461 * c + r4" and r4: "0 \<le> r4" "r4 < 1461"
    by (simp_all add: c_def r4_def)
  have r4': "r4 = 365 * e + r1" and r1: "0 \<le> r1" "r1 < 365"
    by (simp_all add: e_def r1_def)
  have b: "0 \<le> b" "b \<le> 4" using r400 r400' r100 by linarith+
  have c: "0 \<le> c" "c \<le> 24" using r100 r100' r4 by linarith+
  have e: "0 \<le> e" "e \<le> 4" using r4 r4' r1 by linarith+
  have res: "ord2ymd n =
      (if e = 4 \<or> b = 4 then (y0 - 1, 12, 31)
       else (let (m, d) = month_of_yday (month_lengths (is_leapyear y0)) 1 r1 in (y0, m, d)))"
    by (simp add: ord2ymd_def Let_def a_def r400_def b_def r100_def c_def r4_def e_def r1_def
        y0_def)
  show ?thesis
  proof (cases "b = 4")
    case True
    then have z: "r100 = 0" "c = 0" "r4 = 0" "e = 0" "r1 = 0"
      using r400 r400' r100 r100' r4 r4' r1 c e by linarith+
    have y: "y = 400 * (a + 1)" "m = 12" "d = 31"
      using assms res True z by (simp_all add: y0_def)
    have "is_leapyear y"
      unfolding y is_leapyear_def by simp
    moreover have "days_before_year y = 146097 * a + 36524 * 3 + 1461 * 24 + 365 * 3"
      using days_before_year_split [of 3 24 3 a] unfolding y by (simp add: algebra_simps)
    ultimately show ?thesis
      using n True z r400' unfolding y
      by (simp add: ymd2ord_def days_before_month_12 month_lengths_def)
  next
    case b4: False
    then have b3: "b \<le> 3" using b by linarith
    show ?thesis
    proof (cases "e = 4")
      case True
      then have z: "r1 = 0" using r4 r4' r1 by linarith
      from True r100 r100' r4' z have c23: "c \<le> 23" by linarith
      have y: "y = 400 * a + 100 * b + 4 * c + 3 + 1" "m = 12" "d = 31"
        using assms res True by (simp_all add: y0_def)
      have "is_leapyear y"
        unfolding y(1) using is_leapyear_split [of b c 3 a] b b3 c c23 by simp
      moreover have "days_before_year y = 146097 * a + 36524 * b + 1461 * c + 365 * 3"
        unfolding y(1) using days_before_year_split [of b c 3 a] b b3 c by simp
      ultimately show ?thesis
        using n True z r400' r100' r4' y(2,3)
        by (simp add: ymd2ord_def days_before_month_12 month_lengths_def)
    next
      case False
      then have e3: "e \<le> 3" using e by linarith
      have y0: "y0 = 400 * a + 100 * b + 4 * c + e + 1"
        by (simp add: y0_def)
      from assms res False b4 have y: "y = y0"
        and md: "month_of_yday (month_lengths (is_leapyear y0)) 1 r1 = (m, d)"
        by (auto simp: Let_def split: prod.splits)
      have "r1 < sum_list (month_lengths (is_leapyear y0))"
        using r1 by (simp add: sum_list_month_lengths)
      from month_of_yday_spec [OF md r1(1) this month_lengths_pos]
      have v: "1 \<le> m" "m < 13" "1 \<le> d" "d \<le> month_lengths (is_leapyear y0) ! nat (m - 1)"
        "sum_list (take (nat (m - 1)) (month_lengths (is_leapyear y0))) + d = r1 + 1"
        by (simp_all add: length_month_lengths)
      have "days_before_year y0 = 146097 * a + 36524 * b + 1461 * c + 365 * e"
        unfolding y0 using days_before_year_split [of b c e a] b b3 c e e3 by simp
      then have "ymd2ord y0 m d = n"
        using v(5) n r400' r100' r4' by (simp add: ymd2ord_def days_before_month_def)
      then show ?thesis
        using v y by simp
    qed
  qed
qed

lemma div_step_gen:
  fixes y k :: int
  assumes "0 < k"
  shows "y div k = (y - 1) div k + (if y mod k = 0 then 1 else 0)"
proof (cases "y mod k = 0")
  case True
  have "y - 1 = k * (y div k - 1) + (k - 1)"
    using True mult_div_mod_eq [of k y] by (simp add: algebra_simps)
  then have "(y - 1) div k = y div k - 1"
    using assms by (intro int_div_pos_eq [where r = "k - 1"]) simp_all
  with True show ?thesis by simp
next
  case False
  have "0 \<le> y mod k" "y mod k < k"
    using assms by simp_all
  with False have r: "0 < y mod k" "y mod k < k"
    by linarith+
  have "y - 1 = k * (y div k) + (y mod k - 1)"
    using mult_div_mod_eq [of k y] by (simp add: algebra_simps)
  then have "(y - 1) div k = y div k"
    using r by (intro int_div_pos_eq [where r = "y mod k - 1"]) simp_all
  with False show ?thesis by simp
qed

lemma div_step:
  fixes y :: int
  shows "y div 4 = (y - 1) div 4 + (if y mod 4 = 0 then 1 else 0)"
    and "y div 100 = (y - 1) div 100 + (if y mod 100 = 0 then 1 else 0)"
    and "y div 400 = (y - 1) div 400 + (if y mod 400 = 0 then 1 else 0)"
  by (rule div_step_gen, simp)+

lemma mod_100_4: "(y::int) mod 100 = 0 \<Longrightarrow> y mod 4 = 0"
proof -
  assume "y mod 100 = 0"
  then have "100 dvd y" by (simp add: dvd_eq_mod_eq_0)
  moreover have "(4::int) dvd 100" by simp
  ultimately have "4 dvd y" by (metis dvd_trans)
  then show ?thesis by simp
qed

lemma mod_400_100: "(y::int) mod 400 = 0 \<Longrightarrow> y mod 100 = 0"
proof -
  assume "y mod 400 = 0"
  then have "400 dvd y" by (simp add: dvd_eq_mod_eq_0)
  moreover have "(100::int) dvd 400" by simp
  ultimately have "100 dvd y" by (metis dvd_trans)
  then show ?thesis by simp
qed

lemma days_before_year_step: "days_before_year (y + 1) = days_before_year y + year_length y"
proof -
  have "days_before_year (y + 1) = y * 365 + y div 4 - y div 100 + y div 400"
    by (simp add: days_before_year_def)
  also have "\<dots> = days_before_year y + 365 + (if y mod 4 = 0 then 1 else 0)
      - (if y mod 100 = 0 then 1 else 0) + (if y mod 400 = 0 then 1 else 0)"
    unfolding days_before_year_def Let_def
    using div_step(1) [of y] div_step(2) [of y] div_step(3) [of y]
    by (simp only: algebra_simps)
  also have "\<dots> = days_before_year y + year_length y"
    using mod_100_4 [of y] mod_400_100 [of y] by (auto simp: year_length_def is_leapyear_def)
  finally show ?thesis .
qed

lemma year_length_bounds: "365 \<le> year_length y" "year_length y \<le> 366"
  by (simp_all add: year_length_def)

lemma days_before_year_mono:
  assumes "y \<le> y'"
  shows "days_before_year y \<le> days_before_year y'"
  using assms
proof (induction y' rule: int_ge_induct)
  case base
  show ?case by simp
next
  case (step i)
  then show ?case
    using days_before_year_step [of i] year_length_bounds(1) [of i] by linarith
qed

lemma prefix_sum_mono:
  fixes ls :: "int list"
  assumes "\<forall>l \<in> set ls. 0 < l" "i \<le> j"
  shows "sum_list (take i ls) \<le> sum_list (take j ls)"
proof -
  have "take j ls = take i ls @ take (j - i) (drop i ls)"
    using assms(2) take_add [of i "j - i" ls] by simp
  moreover have "0 \<le> sum_list (take (j - i) (drop i ls))"
  proof (rule sum_list_nonneg)
    fix x
    assume "x \<in> set (take (j - i) (drop i ls))"
    then have "x \<in> set ls"
      by (meson in_set_dropD in_set_takeD)
    with assms(1) show "0 \<le> x"
      by fastforce
  qed
  ultimately show ?thesis
    by simp
qed

lemma day_of_year_bounds:
  assumes "1 \<le> m" "m \<le> 12" "1 \<le> d" "d \<le> month_lengths (is_leapyear y) ! nat (m - 1)"
  shows "1 \<le> days_before_month y m + d" "days_before_month y m + d \<le> year_length y"
    "days_before_month y 12 < days_before_month y m + d \<Longrightarrow> m = 12"
proof -
  let ?ls = "month_lengths (is_leapyear y)"
  let ?i = "nat (m - 1)"
  have i: "?i < length ?ls"
    using assms(1,2) by (simp add: length_month_lengths)
  have pos: "\<forall>l \<in> set ?ls. 0 < l"
    by (rule month_lengths_pos)
  have step: "sum_list (take ?i ?ls) + ?ls ! ?i = sum_list (take (Suc ?i) ?ls)"
    using i by (simp add: take_Suc_conv_app_nth)
  have "sum_list (take 0 ?ls) \<le> sum_list (take ?i ?ls)"
    using pos by (rule prefix_sum_mono) simp
  then show "1 \<le> days_before_month y m + d"
    using assms(3) by (simp add: days_before_month_def)
  have "sum_list (take (Suc ?i) ?ls) \<le> sum_list (take 12 ?ls)"
    using pos by (rule prefix_sum_mono) (use i in \<open>simp add: length_month_lengths\<close>)
  then show "days_before_month y m + d \<le> year_length y"
    using step assms(4)
    by (simp add: days_before_month_def year_length_def length_month_lengths
        sum_list_month_lengths)
  show "m = 12" if lt: "days_before_month y 12 < days_before_month y m + d"
  proof (rule ccontr)
    assume "m \<noteq> 12"
    with assms(1,2) have "Suc ?i \<le> 11"
      by simp
    with pos have "sum_list (take (Suc ?i) ?ls) \<le> sum_list (take 11 ?ls)"
      by (rule prefix_sum_mono)
    with step assms(4) lt show False
      by (simp add: days_before_month_def)
  qed
qed

lemma year_of_ordinal:
  assumes "days_before_year Y < k" "k \<le> days_before_year (Y + 1)"
  shows "fst (ord2ymd k) = Y"
proof -
  obtain y m d where o: "ord2ymd k = (y, m, d)"
    by (cases "ord2ymd k") auto
  from ord2ymd_valid [OF o] have v: "1 \<le> m" "m \<le> 12" "1 \<le> d"
    "d \<le> month_lengths (is_leapyear y) ! nat (m - 1)" "ymd2ord y m d = k"
    by simp_all
  from day_of_year_bounds(1,2) [OF v(1-4)] v(5)
  have k: "days_before_year y < k" "k \<le> days_before_year (y + 1)"
    by (simp_all add: ymd2ord_def days_before_year_step)
  have "\<not> y < Y"
  proof
    assume "y < Y"
    then have "days_before_year (y + 1) \<le> days_before_year Y"
      by (intro days_before_year_mono) simp
    with k assms show False by linarith
  qed
  moreover have "\<not> Y < y"
  proof
    assume "Y < y"
    then have "days_before_year (Y + 1) \<le> days_before_year y"
      by (intro days_before_year_mono) simp
    with k assms show False by linarith
  qed
  ultimately show ?thesis
    using o by simp
qed

lemma days_before_month_1: "days_before_month y 1 = 0"
  by (simp add: days_before_month_def)

lemma days_before_month_12': "days_before_month y 12 = year_length y - 31"
  by (simp add: days_before_month_12 year_length_def)

lemma get_week_of_year_iso:
  assumes "ord2ymd n = (y, m, d)"
  shows "get_week_of_year y m d = iso_week_number n \<and>
         1 \<le> get_week_of_year y m d \<and> get_week_of_year y m d \<le> 53"
proof -
  from ord2ymd_valid [OF assms] have v: "1 \<le> m" "m \<le> 12" "1 \<le> d"
    "d \<le> month_lengths (is_leapyear y) ! nat (m - 1)" and n: "ymd2ord y m d = n"
    by simp_all
  define doy where "doy = days_before_month y m + d"
  define dow where "dow = (n + 6) mod 7"
  define woy where "woy = (doy - 1) - dow + 3"
  define thursday where "thursday = n - dow + 3"
  define L where "L = year_length y"
  have doy: "1 \<le> doy" "doy \<le> L"
    using day_of_year_bounds(1,2) [OF v] by (simp_all add: doy_def L_def)
  have dow: "0 \<le> dow" "dow \<le> 6"
    by (simp_all add: dow_def)
  have L: "365 \<le> L" "L \<le> 366"
    by (simp_all add: L_def year_length_bounds)
  have n': "n = days_before_year y + doy"
    using n by (simp add: ymd2ord_def doy_def)
  have th: "thursday = days_before_year y + woy + 1"
    by (simp add: thursday_def woy_def n')
  have next_year: "days_before_year (y + 1) = days_before_year y + L"
    by (simp add: days_before_year_step L_def)
  have wd: "weekday y m d = dow"
    by (simp add: weekday_def n dow_def)
  have g: "get_week_of_year y m d =
      (if 0 \<le> woy
       then (if woy div 7 + 1 = 53 \<and> 31 - d + dow < 3 then 1 else woy div 7 + 1)
       else if - 2 < woy \<or> (woy = - 2 \<and> is_leapyear (y - 1)) then 53 else 52)"
    by (simp only: get_week_of_year_def wd Let_def woy_def doy_def)
  have iso: "iso_week_number n = (thursday - days_before_year Y - 1) div 7 + 1"
    if "fst (ord2ymd thursday) = Y" for Y
    using that
    by (simp add: iso_week_number_def Let_def thursday_def dow_def ymd2ord_def
        days_before_month_1)
  have december: "31 - d + dow = L - doy + dow" if "362 \<le> doy"
  proof -
    have "days_before_month y 12 < days_before_month y m + d"
      using that L by (simp add: days_before_month_12' doy_def [symmetric] L_def [symmetric])
    from day_of_year_bounds(3) [OF v this] have "m = 12" .
    then show ?thesis
      by (simp add: doy_def days_before_month_12' L_def)
  qed
  consider (this_year) "0 \<le> woy" "woy < L" | (next_year) "L \<le> woy" | (last_year) "woy < 0"
    by linarith
  then show ?thesis
  proof cases
    case this_year
    have "fst (ord2ymd thursday) = y"
      using this_year th next_year by (intro year_of_ordinal) linarith+
    from iso [OF this] have i: "iso_week_number n = woy div 7 + 1"
      by (simp add: th)
    have w: "1 \<le> woy div 7 + 1" "woy div 7 + 1 \<le> 53"
      using this_year L by linarith+
    have "\<not> (woy div 7 + 1 = 53 \<and> 31 - d + dow < 3)"
    proof
      assume a: "woy div 7 + 1 = 53 \<and> 31 - d + dow < 3"
      then have "364 \<le> woy" by linarith
      then have "362 \<le> doy" using dow by (simp add: woy_def)
      from december [OF this] a this_year(2) show False
        by (simp add: woy_def)
    qed
    then show ?thesis
      using g i w this_year(1) by simp
  next
    case next_year
    have up: "woy \<le> L + 2"
      using doy dow by (simp add: woy_def)
    have "fst (ord2ymd thursday) = y + 1"
      using next_year up th \<open>days_before_year (y + 1) = days_before_year y + L\<close>
        days_before_year_step [of "y + 1"] year_length_bounds(1) [of "y + 1"]
      by (intro year_of_ordinal) linarith+
    from iso [OF this] have "iso_week_number n = (woy - L) div 7 + 1"
      by (simp add: th \<open>days_before_year (y + 1) = days_before_year y + L\<close>)
    then have i: "iso_week_number n = 1"
      using next_year up by simp
    have w53: "woy div 7 + 1 = 53"
      using next_year up L by linarith
    have "362 \<le> doy"
      using next_year L dow by (simp add: woy_def)
    from december [OF this] next_year have "31 - d + dow < 3"
      by (simp add: woy_def)
    then show ?thesis
      using g i w53 next_year L by simp
  next
    case last_year
    have lo: "- 3 \<le> woy"
      using doy dow by (simp add: woy_def)
    define P where "P = year_length (y - 1)"
    have prev: "days_before_year y = days_before_year (y - 1) + P"
      using days_before_year_step [of "y - 1"] by (simp add: P_def)
    have P: "P = (if is_leapyear (y - 1) then 366 else 365)"
      by (simp add: P_def year_length_def)
    have "365 \<le> P"
      by (simp add: P_def year_length_bounds)
    then have a: "days_before_year (y - 1) < thursday"
      using th prev lo by linarith
    have b: "thursday \<le> days_before_year (y - 1 + 1)"
      using th last_year by simp
    have "fst (ord2ymd thursday) = y - 1"
      using a b by (rule year_of_ordinal)
    from iso [OF this] have i: "iso_week_number n = (P + woy) div 7 + 1"
      by (simp add: th prev)
    from lo last_year have "woy = - 3 \<or> woy = - 2 \<or> woy = - 1"
      by linarith
    then show ?thesis
      using g i P last_year by auto
  qed
qed

lemma to_datetime_range:
  "to_datetime t =
     (if - 9223372036854 \<le> t \<and> t \<le> 9223372036854 then Inr (Timestamp (t * 1000000))
      else Inl OutOfBoundsDatetime)"
  by (simp add: to_datetime_def Let_def)

lemma dt_ordinal_ms: "dt_ordinal (Timestamp (t * 1000000)) = t div 86400000 + 719163"
proof -
  have "(t * 1000000) div (86400000 * 1000000) = t div 86400000"
    by (rule div_mult_mult2) simp
  then show ?thesis
    by (simp add: dt_ordinal_def)
qed

lemma dt_hour_ms:
  "dt_hour (Timestamp (t * 1000000)) = t mod 86400000 div 3600000"
proof -
  have "(t * 1000000) mod (86400000 * 1000000) = t mod 86400000 * 1000000"
    by (rule mult_mod_left [symmetric])
  moreover have "(t mod 86400000 * 1000000) div (3600000 * 1000000) = t mod 86400000 div 3600000"
    by (rule div_mult_mult2) simp
  ultimately show ?thesis
    by (simp add: dt_hour_def)
qed

lemma weekday_of_epoch_day: "((k::int) + 719163 + 6) mod 7 = (k + 3) mod 7"
  by presburger

lemma year_in_timestamp_range:
  assumes "- 9223372036854 \<le> t" "t \<le> 9223372036854"
    and "ord2ymd (t div 86400000 + 719163) = (y, m, d)"
  shows "1677 \<le> y \<and> y \<le> 2262"
proof -
  define n where "n = t div 86400000 + 719163"
  have lo: "612411 \<le> n" and hi: "n \<le> 825914"
    using assms(1,2) unfolding n_def by linarith+
  from ord2ymd_valid [OF assms(3)] have v: "1 \<le> m" "m \<le> 12" "1 \<le> d"
    "d \<le> month_lengths (is_leapyear y) ! nat (m - 1)" and k: "ymd2ord y m d = n"
    by (simp_all add: n_def)
  from day_of_year_bounds(1,2) [OF v] k
  have b: "days_before_year y < n" "n \<le> days_before_year (y + 1)"
    by (simp_all add: ymd2ord_def days_before_year_step)
  have "\<not> y < 1677"
  proof
    assume "y < 1677"
    then have "days_before_year (y + 1) \<le> days_before_year 1677"
      by (intro days_before_year_mono) simp
    moreover have "days_before_year 1677 = 612147"
      by (simp add: days_before_year_def)
    ultimately show False
      using b lo by linarith
  qed
  moreover have "\<not> 2262 < y"
  proof
    assume "2262 < y"
    then have "days_before_year 2263 \<le> days_before_year y"
      by (intro days_before_year_mono) simp
    moreover have "days_before_year 2263 = 826178"
      by (simp add: days_before_year_def)
    ultimately show False
      using b hi by linarith
  qed
  ultimately show ?thesis
    by linarith
qed

text \<open>
  C5 (as amended).  The conversion succeeds exactly for the timestamps from
  -9223372036854 to 9223372036854 milliseconds, those whose nanosecond count fits 64 bits,
  and raises \<^verbatim>\<open>OutOfBoundsDatetime\<close> for any other.  For a timestamp \<open>t\<close> in that range the
  time tuple is a function of \<open>t\<close> alone and its seven fields describe one calendar day and
  time: the year is between 1677 and 2262, month and day are a date of the year, and that
  date is day \<open>t div 86400000\<close> after 1970-01-01; the hour is the hour of the remaining milliseconds; the weekday is the
  weekday of the date, counted from Monday as 0, 1970-01-01 being a Thursday; the week is
  the ISO 8601 week of the date; and the start time begins with year, month, day and hour.
\<close>

theorem time_tuple_consistent:
  "to_datetime t =
     (if - 9223372036854 \<le> t \<and> t \<le> 9223372036854 then Inr (Timestamp (t * 1000000))
      else Inl OutOfBoundsDatetime) \<and>
   (\<forall>x. to_datetime t = Inr x \<longrightarrow>
      (\<exists>s h d w m y wd.
         time_tuple x = (s, h, d, w, m, y, wd) \<and>
         1677 \<le> y \<and> y \<le> 2262 \<and> 1 \<le> m \<and> m \<le> 12 \<and> 1 \<le> d \<and> d \<le> month_lengths (is_leapyear y) ! nat (m - 1) \<and>
         ymd2ord y m d = t div 86400000 + 719163 \<and>
         h = t mod 86400000 div 3600000 \<and> 0 \<le> h \<and> h < 24 \<and>
         wd = weekday y m d \<and> wd = (t div 86400000 + 3) mod 7 \<and> 0 \<le> wd \<and> wd \<le> 6 \<and>
         w = iso_week_number (ymd2ord y m d) \<and> 1 \<le> w \<and> w \<le> 53 \<and>
         (\<exists>rest. s = zfill 4 y @ ''-'' @ zfill 2 m @ ''-'' @ zfill 2 d @ '' '' @ zfill 2 h @ rest)))"
proof (intro conjI allI impI)
  show "to_datetime t =
     (if - 9223372036854 \<le> t \<and> t \<le> 9223372036854 then Inr (Timestamp (t * 1000000))
      else Inl OutOfBoundsDatetime)"
    by (rule to_datetime_range)
next
  fix x
  assume "to_datetime t = Inr x"
  then have x: "x = Timestamp (t * 1000000)"
    and r: "- 9223372036854 \<le> t" "t \<le> 9223372036854"
    by (simp_all add: to_datetime_range split: if_splits)
  define n where "n = t div 86400000 + 719163"
  obtain y m d where o: "ord2ymd n = (y, m, d)"
    by (cases "ord2ymd n") auto
  have yr: "1677 \<le> y \<and> y \<le> 2262"
    using r o unfolding n_def by (rule year_in_timestamp_range)
  have ord: "dt_ordinal x = n"
    by (simp add: x dt_ordinal_ms n_def)
  have f: "dt_year x = y" "dt_month x = m" "dt_day x = d"
    by (simp_all add: dt_year_def dt_month_def dt_day_def ord o)
  from ord2ymd_valid [OF o] have v: "1 \<le> m" "m \<le> 12" "1 \<le> d"
    "d \<le> month_lengths (is_leapyear y) ! nat (m - 1)" and k: "ymd2ord y m d = n"
    by simp_all
  from get_week_of_year_iso [OF o] have w: "get_week_of_year y m d = iso_week_number n"
    "1 \<le> get_week_of_year y m d" "get_week_of_year y m d \<le> 53"
    by simp_all
  have h: "dt_hour x = t mod 86400000 div 3600000"
    by (simp add: x dt_hour_ms)
  have hb: "0 \<le> t mod 86400000 div 3600000" "t mod 86400000 div 3600000 < 24"
  proof -
    have "0 \<le> t mod 86400000" "t mod 86400000 < 86400000"
      by simp_all
    then show "0 \<le> t mod 86400000 div 3600000" "t mod 86400000 div 3600000 < 24"
      by linarith+
  qed
  have wd: "weekday y m d = (t div 86400000 + 3) mod 7"
    unfolding weekday_def k n_def by (rule weekday_of_epoch_day)
  have wdb: "0 \<le> (t div 86400000 + 3) mod 7" "(t div 86400000 + 3) mod 7 \<le> 6"
    by simp_all
  let ?rest = "'':'' @ zfill 2 (dt_minute x) @ '':'' @ zfill 2 (dt_second x) @
     (if dt_nanosecond x = 0
      then (if dt_microsecond x = 0 then [] else ''.'' @ zfill 6 (dt_microsecond x))
      else (if dt_microsecond x = 0 then ''.'' @ zfill 9 (dt_nanosecond x)
            else ''.'' @ zfill 6 (dt_microsecond x) @ zfill 3 (dt_nanosecond x)))"
  have s: "isoformat x =
      zfill 4 y @ ''-'' @ zfill 2 m @ ''-'' @ zfill 2 d @ '' '' @
      zfill 2 (t mod 86400000 div 3600000) @ ?rest"
    unfolding isoformat_def f h by simp
  have tt: "time_tuple x =
      (isoformat x, t mod 86400000 div 3600000, d, iso_week_number n, m, y,
       (t div 86400000 + 3) mod 7)"
    by (simp add: time_tuple_def f h dt_week_def dt_dayofweek_def w(1) wd)
  show "\<exists>s h d w m y wd.
         time_tuple x = (s, h, d, w, m, y, wd) \<and>
         1677 \<le> y \<and> y \<le> 2262 \<and> 1 \<le> m \<and> m \<le> 12 \<and> 1 \<le> d \<and> d \<le> month_lengths (is_leapyear y) ! nat (m - 1) \<and>
         ymd2ord y m d = t div 86400000 + 719163 \<and>
         h = t mod 86400000 div 3600000 \<and> 0 \<le> h \<and> h < 24 \<and>
         wd = weekday y m d \<and> wd = (t div 86400000 + 3) mod 7 \<and> 0 \<le> wd \<and> wd \<le> 6 \<and>
         w = iso_week_number (ymd2ord y m d) \<and> 1 \<le> w \<and> w \<le> 53 \<and>
         (\<exists>rest. s = zfill 4 y @ ''-'' @ zfill 2 m @ ''-'' @ zfill 2 d @ '' '' @ zfill 2 h @ rest)"
    apply (rule exI [of _ "isoformat x"], rule exI [of _ "t mod 86400000 div 3600000"],
        rule exI [of _ d], rule exI [of _ "iso_week_number n"], rule exI [of _ m],
        rule exI [of _ y], rule exI [of _ "(t div 86400000 + 3) mod 7"])
    using tt yr v k hb wd wdb w s unfolding n_def [symmetric] by (simp only: simp_thms) blast
qed

theorem time_tuple_consistent_witness:
  "to_datetime 1541903636796 = Inr (Timestamp 1541903636796000000) \<and>
   time_tuple (Timestamp 1541903636796000000) =
     (''2018-11-11 02:33:56.796000'', 2, 11, 45, 11, 2018, 6) \<and>
   ymd2ord 2018 11 11 = 1541903636796 div 86400000 + 719163 \<and>
   weekday 2018 11 11 = 6 \<and>
   iso_week_number (ymd2ord 2018 11 11) = 45"
proof -
  have x: "to_datetime 1541903636796 = Inr (Timestamp 1541903636796000000)"
    by (simp add: to_datetime_def)
  from time_tuple_consistent [of 1541903636796] x
  obtain s h d w m y wd where
    t: "time_tuple (Timestamp 1541903636796000000) = (s, h, d, w, m, y, wd)"
    and k: "ymd2ord y m d = 1541903636796 div 86400000 + 719163"
    and wd: "wd = weekday y m d"
    and w: "w = iso_week_number (ymd2ord y m d)"
    by blast
  from t have "d = 11" "w = 45" "m = 11" "y = 2018" "wd = 6"
    by (simp_all add: time_tuple_event_0)
  with k wd w x show ?thesis
    by (simp add: time_tuple_event_0)
qed

theorem time_decomposer_out_of_range_counterexample:
  "to_datetime 1000000000000000 = Inl OutOfBoundsDatetime \<and>
   to_datetime_series [1000000000000000] = Inl OutOfBoundsDatetime"
  by (simp add: to_datetime_def)

end
